theory Spec2Isabelle
  imports Main "HOL-Library.Sublist"
begin

section \<open>Python's strings\<close>

text \<open>
  A Python \<^verbatim>\<open>str\<close> is a sequence of Unicode code points, and \<^verbatim>\<open>str.split()\<close>,
  \<^verbatim>\<open>str.isalnum()\<close> and \<^verbatim>\<open>str.lower()\<close> classify and map code points by the Unicode
  character database of the interpreter. A code point is a natural number here and a
  \<^verbatim>\<open>str\<close> a list of them; \<open>lit\<close> gives the \<^verbatim>\<open>str\<close> of an ASCII literal of the script.
\<close>

type_synonym codepoint = nat

type_synonym str = "codepoint list"

definition lit :: "string \<Rightarrow> str" where
  "lit s = map of_char s"

text \<open>
  The character database, as a parameter: which code points above 127 are whitespace
  (\<^verbatim>\<open>U+0085\<close> and \<^verbatim>\<open>U+00A0\<close> are, for one), which are alphanumeric (\<^verbatim>\<open>U+00E9\<close> is), and
  what \<^verbatim>\<open>lower()\<close> makes of a string that holds a code point above 127 (the full
  case mapping may change the length and looks at the neighbours). Below 128 the
  classification is fixed in the definitions that follow, as CPython fixes it.
\<close>

record unicode_tables =
  uni_isspace :: "codepoint \<Rightarrow> bool"
  uni_isalnum :: "codepoint \<Rightarrow> bool"
  uni_lower :: "str \<Rightarrow> str"

text \<open>
  ASCII whitespace: tab, line feed, vertical tab, form feed, carriage return, the four
  separators \<^verbatim>\<open>0x1C\<close>-\<^verbatim>\<open>0x1F\<close> and space.
\<close>

definition ascii_whitespace :: "codepoint list" where
  "ascii_whitespace = [0x09, 0x0A, 0x0B, 0x0C, 0x0D, 0x1C, 0x1D, 0x1E, 0x1F, 0x20]"

definition char_isspace :: "unicode_tables \<Rightarrow> codepoint \<Rightarrow> bool" where
  "char_isspace db c = (if c < 128 then c \<in> set ascii_whitespace else uni_isspace db c)"

text \<open>ASCII alphanumerics: the digits \<^verbatim>\<open>0\<close>-\<^verbatim>\<open>9\<close> and the letters \<^verbatim>\<open>A\<close>-\<^verbatim>\<open>Z\<close>, \<^verbatim>\<open>a\<close>-\<^verbatim>\<open>z\<close>.\<close>

definition char_isalnum :: "unicode_tables \<Rightarrow> codepoint \<Rightarrow> bool" where
  "char_isalnum db c =
     (if c < 128
      then (0x30 \<le> c \<and> c \<le> 0x39) \<or> (0x41 \<le> c \<and> c \<le> 0x5A) \<or> (0x61 \<le> c \<and> c \<le> 0x7A)
      else uni_isalnum db c)"

definition ascii_lower :: "codepoint \<Rightarrow> codepoint" where
  "ascii_lower c = (if 0x41 \<le> c \<and> c \<le> 0x5A then c + 0x20 else c)"

text \<open>
  \<^verbatim>\<open>s.lower()\<close>: on a string of ASCII code points, \<^verbatim>\<open>A\<close>-\<^verbatim>\<open>Z\<close> become \<^verbatim>\<open>a\<close>-\<^verbatim>\<open>z\<close>;
  any other string is mapped as the database says.
\<close>

definition str_lower :: "unicode_tables \<Rightarrow> str \<Rightarrow> str" where
  "str_lower db s = (if list_all (\<lambda>c. c < 128) s then map ascii_lower s else uni_lower db s)"

text \<open>\<^verbatim>\<open>"".isalnum()\<close> is \<^verbatim>\<open>False\<close>: the method asks for at least one character.\<close>

definition str_isalnum :: "unicode_tables \<Rightarrow> str \<Rightarrow> bool" where
  "str_isalnum db s = (s \<noteq> [] \<and> list_all (char_isalnum db) s)"

text \<open>
  \<^verbatim>\<open>s.split()\<close>: one scan of the code points; \<open>word\<close> is the run of non-whitespace
  code points read since the last whitespace. Runs of whitespace separate once, and
  leading and trailing whitespace gives no empty string.
\<close>

fun split_from :: "unicode_tables \<Rightarrow> str \<Rightarrow> str \<Rightarrow> str list" where
  "split_from db word [] = (if word = [] then [] else [word])"
| "split_from db word (c # cs) =
     (if char_isspace db c
      then (if word = [] then split_from db [] cs else word # split_from db [] cs)
      else split_from db (word @ [c]) cs)"

definition split :: "unicode_tables \<Rightarrow> str \<Rightarrow> str list" where
  "split db s = split_from db [] s"

text \<open>\<^verbatim>\<open>sep.join(xs)\<close>.\<close>

fun join :: "str \<Rightarrow> str list \<Rightarrow> str" where
  "join sep [] = []"
| "join sep [x] = x"
| "join sep (x # y # ys) = x @ sep @ join sep (y # ys)"

section \<open>Exceptions, the toolkit and the display layer\<close>

text \<open>
  \<^verbatim>\<open>app.py\<close> is a Streamlit script over NLTK. Every NLTK call is a call into an
  external library: it either returns a value or raises. The script has two kinds of
  handler, \<^verbatim>\<open>except LookupError\<close> and \<^verbatim>\<open>except Exception\<close>, so an exception is
  modelled by the one distinction the handlers make: an instance of \<^verbatim>\<open>LookupError\<close>
  (or of a subclass of it), or an instance of any other subclass of \<^verbatim>\<open>Exception\<close>.
  Each carries its message, the value of \<^verbatim>\<open>str(e)\<close>. Interrupts and interpreter exits
  (\<^verbatim>\<open>BaseException\<close> outside \<^verbatim>\<open>Exception\<close>) are not failures of a call and are not
  modelled.
\<close>

datatype exn = LookupError str | OtherError str

type_synonym 'a result = "exn + 'a"

fun str_exn :: "exn \<Rightarrow> str" where
  "str_exn (LookupError m) = m"
| "str_exn (OtherError m) = m"

text \<open>
  A list comprehension \<^verbatim>\<open>[f(x) for x in xs]\<close> over a call that may raise: the first
  exception ends the comprehension and no list is built.
\<close>

fun map_result :: "('a \<Rightarrow> 'b result) \<Rightarrow> 'a list \<Rightarrow> 'b list result" where
  "map_result f [] = Inr []"
| "map_result f (x # xs) =
     (case f x of
        Inl e \<Rightarrow> Inl e
      | Inr y \<Rightarrow> (case map_result f xs of Inl e \<Rightarrow> Inl e | Inr ys \<Rightarrow> Inr (y # ys)))"

text \<open>
  The value of \<^verbatim>\<open>ne_chunk\<close> is an \<^verbatim>\<open>nltk.Tree\<close>: a label and a list of children, each
  child a \<^verbatim>\<open>(token, tag)\<close> tuple or again a tree.
\<close>

datatype node = Leaf str str | Subtree str "node list"

datatype entity_tree = Tree str "node list"

text \<open>
  The NLTK entry points the script calls, as parameters. \<open>data_find\<close> is
  \<^verbatim>\<open>nltk.data.find\<close> (its value, a path pointer, is dropped by the script), \<open>download\<close> is
  \<^verbatim>\<open>nltk.download(name, quiet=True)\<close> with the boolean it returns (\<^verbatim>\<open>True\<close> for a
  package that is installed or up to date, \<^verbatim>\<open>False\<close> for a download that failed),
  \<open>stopwords_words\<close> is \<^verbatim>\<open>stopwords.words\<close>, \<open>porter_stem\<close> is
  \<^verbatim>\<open>PorterStemmer().stem\<close> and \<open>lemmatize\<close> is \<^verbatim>\<open>WordNetLemmatizer().lemmatize\<close>. In
  one run of the script every entry point is called at most once with a given argument
  (the stemmer and the lemmatizer, which are called once per token, apart), so a
  function per entry point covers whatever the library does during the run, an earlier
  download changing a later call included.
\<close>

record toolkit =
  data_find :: "str \<Rightarrow> unit result"
  download :: "str \<Rightarrow> bool result"
  stopwords_words :: "str \<Rightarrow> str list result"
  word_tokenize :: "str \<Rightarrow> str list result"
  porter_stem :: "str \<Rightarrow> str result"
  lemmatize :: "str \<Rightarrow> str result"
  pos_tag :: "str list \<Rightarrow> (str \<times> str) list result"
  ne_chunk :: "(str \<times> str) list \<Rightarrow> entity_tree result"

text \<open>
  The calls into Streamlit, in the order the script makes them, are the rendered page.
  \<open>St_caption\<close> is \<^verbatim>\<open>st.write\<close> or \<^verbatim>\<open>st.info\<close> of one of the fixed explanatory
  texts of the script (the text itself is left out); the other constructors carry what
  is displayed.
\<close>

datatype st_call =
    St_info str
  | St_error str
  | St_success str
  | St_warning str
  | St_title str
  | St_subheader str
  | St_divider
  | St_caption
  | St_write_str str
  | St_write_tokens "str list"
  | St_write_pairs "(str \<times> str) list"
  | St_text_tree entity_tree
  | St_text_area str str

section \<open>Resource provisioning\<close>

text \<open>
  \<^verbatim>\<open>download_nltk_resource\<close> (lines 14-30). The lookup's \<^verbatim>\<open>LookupError\<close> is handled by
  fetching; any other exception of the lookup has no handler and leaves the function.
  The value of \<^verbatim>\<open>nltk.download\<close> is not read: the function returns \<^verbatim>\<open>True\<close> once the
  call has returned, and \<^verbatim>\<open>False\<close> when it raised.
\<close>

definition download_nltk_resource :: "toolkit \<Rightarrow> str \<Rightarrow> st_call list \<times> bool result" where
  "download_nltk_resource tk resource_name =
     (case data_find tk resource_name of
        Inr _ \<Rightarrow> ([], Inr True)
      | Inl (OtherError m) \<Rightarrow> ([], Inl (OtherError m))
      | Inl (LookupError _) \<Rightarrow>
          (let shown = [St_info (lit ''Downloading NLTK resource: '' @ resource_name)] in
           case download tk resource_name of
             Inr _ \<Rightarrow> (shown, Inr True)
           | Inl e \<Rightarrow>
               (shown @
                [St_error
                   (lit ''Error downloading '' @ resource_name @ lit '': '' @ str_exn e)],
                Inr False)))"

definition resources :: "str list" where
  "resources =
     [lit ''punkt'', lit ''stopwords'', lit ''wordnet'', lit ''averaged_perceptron_tagger'',
      lit ''maxent_ne_chunker'', lit ''words'']"

text \<open>
  The loop of lines 44-47, from the value \<open>all_success\<close> holds on entry. An exception
  leaving \<^verbatim>\<open>download_nltk_resource\<close> leaves the loop as well: there is no handler at
  module level.
\<close>

fun provision :: "toolkit \<Rightarrow> str list \<Rightarrow> bool \<Rightarrow> st_call list \<times> bool result" where
  "provision tk [] all_success = ([], Inr all_success)"
| "provision tk (resource # rest) all_success =
     (case download_nltk_resource tk resource of
        (shown, Inl e) \<Rightarrow> (shown, Inl e)
      | (shown, Inr ok) \<Rightarrow>
          (case provision tk rest (if \<not> ok then False else all_success) of
             (shown', r) \<Rightarrow> (shown @ shown', r)))"

section \<open>The stages\<close>

text \<open>
  Line 100, the comprehension
  \<^verbatim>\<open>[word for word in tokens if word.lower() not in stop_words and word.isalnum()]\<close>.
\<close>

definition remove_stopwords :: "unicode_tables \<Rightarrow> str set \<Rightarrow> str list \<Rightarrow> str list" where
  "remove_stopwords db stop_words toks =
     filter (\<lambda>word. str_lower db word \<notin> stop_words \<and> str_isalnum db word) toks"

text \<open>Lines 84-92: \<^verbatim>\<open>word_tokenize\<close>, and \<^verbatim>\<open>user_text.split()\<close> when it raises.\<close>

definition tokenization :: "unicode_tables \<Rightarrow> toolkit \<Rightarrow> str \<Rightarrow> st_call list \<times> str list" where
  "tokenization db tk user_text =
     (case word_tokenize tk user_text of
        Inr toks \<Rightarrow> ([St_write_tokens toks], toks)
      | Inl e \<Rightarrow>
          (let toks = split db user_text in
           ([St_error (lit ''Error in tokenization: '' @ str_exn e),
             St_warning (lit ''Using fallback tokenizer (basic split by space).''),
             St_write_tokens toks], toks)))"

text \<open>Lines 127-146: \<^verbatim>\<open>pos_tag(tokens)\<close>, and the \<^verbatim>\<open>"UNK"\<close> pairs when it raises.\<close>

definition pos_tagging :: "toolkit \<Rightarrow> str list \<Rightarrow> st_call list \<times> (str \<times> str) list" where
  "pos_tagging tk toks =
     (case pos_tag tk toks of
        Inr tagged \<Rightarrow> ([St_write_pairs tagged, St_caption], tagged)
      | Inl e \<Rightarrow>
          (let tagged = map (\<lambda>token. (token, lit ''UNK'')) toks in
           ([St_error (lit ''Error in POS tagging: '' @ str_exn e), St_write_pairs tagged],
            tagged)))"

text \<open>\<^verbatim>\<open>Tree.leaves()\<close>: the \<^verbatim>\<open>(token, tag)\<close> tuples below a node, left to right.\<close>

fun leaves :: "node \<Rightarrow> (str \<times> str) list" where
  "leaves (Leaf token pos) = [(token, pos)]"
| "leaves (Subtree label children) = concat (map leaves children)"

text \<open>
  The loop of lines 164-168 over the children of the tree. Only an \<^verbatim>\<open>nltk.Tree\<close> has
  the attribute \<^verbatim>\<open>label\<close>; a tuple is passed over.
\<close>

fun extract_entities :: "node list \<Rightarrow> (str \<times> str) list \<Rightarrow> (str \<times> str) list" where
  "extract_entities [] named = named"
| "extract_entities (Leaf token pos # rest) named = extract_entities rest named"
| "extract_entities (Subtree label children # rest) named =
     extract_entities rest
       (named @ [(join (lit '' '') (map fst (leaves (Subtree label children))), label)])"

text \<open>
  Lines 155-178. When \<^verbatim>\<open>ne_chunk\<close> raises, neither \<^verbatim>\<open>ner_tree\<close> nor
  \<^verbatim>\<open>named_entities\<close> is bound and only the error is shown.
\<close>

definition ner ::
  "toolkit \<Rightarrow> (str \<times> str) list \<Rightarrow>
   st_call list \<times> entity_tree option \<times> (str \<times> str) list option" where
  "ner tk tagged =
     (case ne_chunk tk tagged of
        Inl e \<Rightarrow>
          ([St_error (lit ''Error in Named Entity Recognition: '' @ str_exn e)], None, None)
      | Inr (Tree root children) \<Rightarrow>
          (let named = extract_entities children [] in
           ([St_caption, St_text_tree (Tree root children)] @
            (if named \<noteq> []
             then [St_write_str (lit ''Detected Named Entities:''), St_write_pairs named]
             else [St_write_str (lit ''No named entities detected.'')]),
            Some (Tree root children), Some named)))"

section \<open>The script\<close>

text \<open>
  What a run of the script leaves behind: the page (\<open>ui\<close>), the exception that ended it
  if one did (\<open>raised\<close>), and the module's variables, \<open>None\<close> for a name that was never
  bound.
\<close>

record run =
  ui :: "st_call list"
  raised :: "exn option"
  tokens :: "str list option"
  filtered_tokens :: "str list option"
  stemmed_tokens :: "str list option"
  lemmatized_tokens :: "str list option"
  pos_tagged_tokens :: "(str \<times> str) list option"
  ner_tree :: "entity_tree option"
  named_entities :: "(str \<times> str) list option"

definition no_run :: run where
  "no_run =
     \<lparr>ui = [], raised = None, tokens = None, filtered_tokens = None, stemmed_tokens = None,
      lemmatized_tokens = None, pos_tagged_tokens = None, ner_tree = None,
      named_entities = None\<rparr>"

text \<open>
  Lines 72-180, the body under \<^verbatim>\<open>if user_text:\<close>. Stemming and lemmatization have no
  handler: an exception of \<^verbatim>\<open>porter.stem\<close> or \<^verbatim>\<open>lemmatizer.lemmatize\<close> ends the run
  there, with the page as far as it was written.
\<close>

definition process :: "unicode_tables \<Rightarrow> toolkit \<Rightarrow> str set \<Rightarrow> str \<Rightarrow> run" where
  "process db tk stop_words user_text =
     (if user_text = [] then no_run
      else
        (let (shown2, toks) = tokenization db tk user_text;
             filt = remove_stopwords db stop_words toks;
             r3 = no_run
               \<lparr>ui := [St_divider, St_subheader (lit ''1. Original Text''),
                       St_write_str user_text, St_divider,
                       St_subheader (lit ''2. Tokenization''), St_caption] @ shown2 @
                      [St_divider, St_subheader (lit ''3. Stopword Removal''), St_caption,
                       St_write_tokens filt, St_divider, St_subheader (lit ''4. Stemming''),
                       St_caption],
                tokens := Some toks, filtered_tokens := Some filt\<rparr>
         in (case map_result (porter_stem tk) filt of
               Inl e \<Rightarrow> r3\<lparr>raised := Some e\<rparr>
             | Inr stemmed \<Rightarrow>
                 (let r4 = r3
                        \<lparr>ui := ui r3 @
                           [St_write_tokens stemmed, St_divider,
                            St_subheader (lit ''5. Lemmatization''), St_caption],
                         stemmed_tokens := Some stemmed\<rparr>
                  in (case map_result (lemmatize tk) filt of
                        Inl e \<Rightarrow> r4\<lparr>raised := Some e\<rparr>
                      | Inr lemmas \<Rightarrow>
                          (let (shown6, tagged) = pos_tagging tk toks;
                               (shown7, tree, named) = ner tk tagged
                           in r4\<lparr>ui := ui r4 @
                                   [St_write_tokens lemmas, St_divider,
                                    St_subheader (lit ''6. Part of Speech (POS) Tagging''),
                                    St_caption] @ shown6 @
                                   [St_divider,
                                    St_subheader (lit ''7. Named Entity Recognition (NER)''),
                                    St_caption] @ shown7 @ [St_divider],
                                 lemmatized_tokens := Some lemmas,
                                 pos_tagged_tokens := Some tagged,
                                 ner_tree := tree, named_entities := named\<rparr>))))))"

definition default_text :: str where
  "default_text =
     lit ''Dr. Smith went to the U.S.A. on Friday to buy some delicious apples for $5.50.''"

text \<open>
  Lines 10-69: provisioning, the tools, the title and the text area. \<^verbatim>\<open>stopwords.words\<close>
  is called outside any handler. The value is the stop word set the body reads.
\<close>

definition startup :: "toolkit \<Rightarrow> st_call list \<times> str set result" where
  "startup tk =
     (let checking = St_info (lit ''Checking and downloading required NLTK resources...'') in
      case provision tk resources True of
        (shown, Inl e) \<Rightarrow> (checking # shown, Inl e)
      | (shown, Inr all_success) \<Rightarrow>
          (let status =
                 (if all_success
                  then St_success (lit ''All NLTK resources successfully checked/downloaded'')
                  else St_warning
                         (lit ''Some NLTK resources may not have downloaded correctly''));
               shown' = checking # shown @ [status]
           in case stopwords_words tk (lit ''english'') of
                Inl e \<Rightarrow> (shown', Inl e)
              | Inr ws \<Rightarrow>
                  (shown' @
                   [St_title (lit ''NLP Fundamentals Explorer''), St_caption,
                    St_text_area (lit ''Enter Text Here:'') default_text],
                   Inr (set ws))))"

text \<open>The whole script; \<open>user_text\<close> is the value the text area returns.\<close>

definition app :: "unicode_tables \<Rightarrow> toolkit \<Rightarrow> str \<Rightarrow> run" where
  "app db tk user_text =
     (case startup tk of
        (shown, Inl e) \<Rightarrow> no_run\<lparr>ui := shown, raised := Some e\<rparr>
      | (shown, Inr stop_words) \<Rightarrow>
          (let r = process db tk stop_words user_text in r\<lparr>ui := shown @ ui r\<rparr>))"

section \<open>The specification's wording of two stages\<close>

text \<open>
  The specification's extraction: along the immediate children of the tree, in order,
  every labelled group gives the pair of its leaf tokens joined by one space and its
  label; a plain \<^verbatim>\<open>(token, tag)\<close> child gives nothing.
\<close>

definition named_entity_list :: "entity_tree \<Rightarrow> (str \<times> str) list" where
  "named_entity_list t =
     (case t of Tree root children \<Rightarrow>
        concat (map (\<lambda>child. case child of
                        Leaf token pos \<Rightarrow> []
                      | Subtree label below \<Rightarrow>
                          [(join (lit '' '') (map fst (concat (map leaves below))), label)])
                  children))"

section \<open>Character tables and toolkits to run the script on\<close>

text \<open>
  The character database as far as Latin-1: \<^verbatim>\<open>U+0085\<close> and \<^verbatim>\<open>U+00A0\<close> are whitespace;
  the letters, superscript digits and fractions of the block are alphanumeric (the
  signs \<^verbatim>\<open>U+00D7\<close> and \<^verbatim>\<open>U+00F7\<close> are not); \<^verbatim>\<open>U+00C0\<close>-\<^verbatim>\<open>U+00DE\<close> but \<^verbatim>\<open>U+00D7\<close> have
  their lowercase 32 places up. Nothing is known above \<^verbatim>\<open>U+00FF\<close>.
\<close>

definition latin1_tables :: unicode_tables where
  "latin1_tables =
     \<lparr>uni_isspace = (\<lambda>c. c = 0x85 \<or> c = 0xA0),
      uni_isalnum =
        (\<lambda>c. c \<in> set [0xAA, 0xB2, 0xB3, 0xB5, 0xB9, 0xBA, 0xBC, 0xBD, 0xBE] \<or>
             (0xC0 \<le> c \<and> c \<le> 0xFF \<and> c \<noteq> 0xD7 \<and> c \<noteq> 0xF7)),
      uni_lower =
        map (\<lambda>c. if (0x41 \<le> c \<and> c \<le> 0x5A) \<or> (0xC0 \<le> c \<and> c \<le> 0xDE \<and> c \<noteq> 0xD7)
                 then c + 0x20 else c)\<rparr>"

text \<open>
  \<open>sample_toolkit\<close> has every resource in place and small stand-ins for the NLTK
  models: it tokenizes at whitespace, tags a token with a capital as \<^verbatim>\<open>NNP\<close> and groups
  each such token as a \<^verbatim>\<open>PERSON\<close>. \<open>offline_toolkit\<close> has no resource and no network:
  every call that needs a resource raises.
\<close>

definition sample_toolkit :: toolkit where
  "sample_toolkit =
     \<lparr>data_find = (\<lambda>name. Inr ()),
      download = (\<lambda>name. Inr True),
      stopwords_words =
        (\<lambda>lang. Inr [lit ''to'', lit ''the'', lit ''on'', lit ''for'', lit ''some'']),
      word_tokenize = (\<lambda>text. Inr (split latin1_tables text)),
      porter_stem = (\<lambda>word. Inr (str_lower latin1_tables word)),
      lemmatize = (\<lambda>word. Inr word),
      pos_tag =
        (\<lambda>toks. Inr (map (\<lambda>t. (t, if t = str_lower latin1_tables t then lit ''NN''
                                  else lit ''NNP'')) toks)),
      ne_chunk =
        (\<lambda>tagged. Inr (Tree (lit ''S'')
           (map (\<lambda>(t, p). if p = lit ''NNP'' then Subtree (lit ''PERSON'') [Leaf t p]
                          else Leaf t p)
              tagged)))\<rparr>"

definition offline_toolkit :: toolkit where
  "offline_toolkit =
     \<lparr>data_find = (\<lambda>name. Inl (LookupError name)),
      download = (\<lambda>name. Inl (OtherError (lit ''no route to host''))),
      stopwords_words = (\<lambda>lang. Inl (LookupError (lit ''stopwords''))),
      word_tokenize = (\<lambda>text. Inl (LookupError (lit ''punkt''))),
      porter_stem = (\<lambda>word. Inr (str_lower latin1_tables word)),
      lemmatize = (\<lambda>word. Inl (LookupError (lit ''wordnet''))),
      pos_tag = (\<lambda>toks. Inl (LookupError (lit ''averaged_perceptron_tagger''))),
      ne_chunk = (\<lambda>tagged. Inl (LookupError (lit ''maxent_ne_chunker'')))\<rparr>"

text \<open>
  Variations. \<open>failed_fetch_toolkit\<close>: nothing is installed and the network is down,
  and \<^verbatim>\<open>nltk.download\<close> reports the failed download the way it does, by returning
  \<^verbatim>\<open>False\<close> without raising. \<open>corrupt_cache_toolkit\<close>: the lookup fails with an
  exception that is not a \<^verbatim>\<open>LookupError\<close> (an unreadable archive).
  \<open>no_tagger_toolkit\<close>: the tagger model is missing. \<open>short_tagger_toolkit\<close>: a tagger
  that answers for the first token only. \<open>two_entities_toolkit\<close>: a chunker that
  answers with two groups of two tokens each.
\<close>

definition failed_fetch_toolkit :: toolkit where
  "failed_fetch_toolkit = offline_toolkit\<lparr>download := (\<lambda>name. Inr False)\<rparr>"

definition corrupt_cache_toolkit :: toolkit where
  "corrupt_cache_toolkit =
     sample_toolkit
       \<lparr>data_find := (\<lambda>name. Inl (OtherError (lit ''File is not a zip file'')))\<rparr>"

definition no_tagger_toolkit :: toolkit where
  "no_tagger_toolkit =
     sample_toolkit
       \<lparr>pos_tag := (\<lambda>toks. Inl (LookupError (lit ''averaged_perceptron_tagger'')))\<rparr>"


definition two_entities_toolkit :: toolkit where
  "two_entities_toolkit =
     sample_toolkit\<lparr>ne_chunk := (\<lambda>tagged. Inr (Tree (lit ''S'')
        [Subtree (lit ''PERSON'') [Leaf (lit ''John'') (lit ''NNP''),
                                   Leaf (lit ''Smith'') (lit ''NNP'')],
         Leaf (lit ''visited'') (lit ''VBD''),
         Subtree (lit ''GPE'') [Leaf (lit ''New'') (lit ''NNP''),
                                Leaf (lit ''York'') (lit ''NNP'')]]))\<rparr>"

section \<open>Facts about the parts\<close>

lemma download_nltk_resource_result:
  "snd (download_nltk_resource tk name) =
     (case data_find tk name of
        Inr _ \<Rightarrow> Inr True
      | Inl (OtherError m) \<Rightarrow> Inl (OtherError m)
      | Inl (LookupError _) \<Rightarrow>
          (case download tk name of Inr _ \<Rightarrow> Inr True | Inl e \<Rightarrow> Inr False))"
  by (simp add: download_nltk_resource_def Let_def split: sum.splits exn.splits)

lemma map_result_length: "map_result f xs = Inr ys \<Longrightarrow> length ys = length xs"
  by (induction xs arbitrary: ys) (auto split: sum.splits)

lemma map_result_nth:
  "map_result f xs = Inr ys \<Longrightarrow> i < length xs \<Longrightarrow> f (xs ! i) = Inr (ys ! i)"
proof (induction xs arbitrary: ys i)
  case Nil
  then show ?case by simp
next
  case (Cons x xs)
  then show ?case by (cases i) (auto split: sum.splits)
qed

lemma map_result_returns:
  "(\<forall>x\<in>set xs. \<exists>y. f x = Inr y) \<Longrightarrow> \<exists>ys. map_result f xs = Inr ys"
  by (induction xs) (auto split: sum.splits)

lemma extract_entities_append:
  "extract_entities children named = named @ named_entity_list (Tree root children)"
proof (induction children arbitrary: named)
  case Nil
  then show ?case by (simp add: named_entity_list_def)
next
  case (Cons child children)
  then show ?case by (cases child) (simp_all add: named_entity_list_def)
qed

lemma split_from_no_empty: "[] \<notin> set (split_from db word cs)"
  by (induction cs arbitrary: word) auto

lemma split_from_no_space:
  "\<forall>c\<in>set word. \<not> char_isspace db c \<Longrightarrow>
   \<forall>t\<in>set (split_from db word cs). \<forall>c\<in>set t. \<not> char_isspace db c"
proof (induction cs arbitrary: word)
  case Nil
  then show ?case by simp
next
  case (Cons c cs)
  show ?case
  proof (cases "char_isspace db c")
    case True
    have "\<forall>t\<in>set (split_from db [] cs). \<forall>c\<in>set t. \<not> char_isspace db c"
      by (rule Cons.IH) simp
    with True Cons.prems show ?thesis by simp
  next
    case False
    with Cons.prems have "\<forall>a\<in>set (word @ [c]). \<not> char_isspace db a" by simp
    then have "\<forall>t\<in>set (split_from db (word @ [c]) cs). \<forall>c\<in>set t. \<not> char_isspace db c"
      by (rule Cons.IH)
    with False show ?thesis by simp
  qed
qed

lemma concat_split_from:
  "concat (split_from db word cs) = word @ filter (\<lambda>c. \<not> char_isspace db c) cs"
  by (induction cs arbitrary: word) auto

lemma split_from_run:
  "split_from db word cs =
     (if word @ takeWhile (\<lambda>c. \<not> char_isspace db c) cs = [] then []
      else [word @ takeWhile (\<lambda>c. \<not> char_isspace db c) cs]) @
     split_from db [] (dropWhile (\<lambda>c. \<not> char_isspace db c) cs)"
proof (induction cs arbitrary: word)
  case Nil
  then show ?case by simp
next
  case (Cons c cs)
  show ?case
  proof (cases "char_isspace db c")
    case True
    then show ?thesis by simp
  next
    case False
    with Cons.IH [of "word @ [c]"] show ?thesis by simp
  qed
qed

lemma split_from_skip:
  "split_from db [] cs = split_from db [] (dropWhile (char_isspace db) cs)"
  by (induction cs) auto

lemma split_unfold:
  "split db s =
     (case dropWhile (char_isspace db) s of
        [] \<Rightarrow> []
      | c # rest \<Rightarrow>
          takeWhile (\<lambda>c. \<not> char_isspace db c) (c # rest) #
          split db (dropWhile (\<lambda>c. \<not> char_isspace db c) (c # rest)))"
proof (cases "dropWhile (char_isspace db) s")
  case Nil
  have "split db s = split_from db [] (dropWhile (char_isspace db) s)"
    unfolding split_def by (rule split_from_skip)
  also have "\<dots> = []" unfolding Nil by simp
  finally show ?thesis unfolding Nil by simp
next
  case (Cons c rest)
  have "c = hd (dropWhile (char_isspace db) s)" unfolding Cons by simp
  moreover have "dropWhile (char_isspace db) s \<noteq> []" unfolding Cons by simp
  ultimately have first: "\<not> char_isspace db c"
    using hd_dropWhile [of "char_isspace db" s] by simp
  have "split db s = split_from db [] (dropWhile (char_isspace db) s)"
    unfolding split_def by (rule split_from_skip)
  also have "\<dots> = split_from db [] (c # rest)" unfolding Cons ..
  also have "\<dots> =
      takeWhile (\<lambda>c. \<not> char_isspace db c) (c # rest) #
      split_from db [] (dropWhile (\<lambda>c. \<not> char_isspace db c) (c # rest))"
    using first by (subst split_from_run) simp
  finally show ?thesis unfolding Cons by (simp add: split_def)
qed

lemma str_isalnum_iff:
  "str_isalnum db w \<longleftrightarrow> w \<noteq> [] \<and> (\<forall>c\<in>set w. char_isalnum db c)"
  by (simp add: str_isalnum_def list_all_iff)

lemma tokenization_snd:
  "snd (tokenization db tk ut) =
     (case word_tokenize tk ut of Inr toks \<Rightarrow> toks | Inl e \<Rightarrow> split db ut)"
  by (simp add: tokenization_def Let_def split: sum.splits)

lemma pos_tagging_snd:
  "snd (pos_tagging tk toks) =
     (case pos_tag tk toks of
        Inr tagged \<Rightarrow> tagged
      | Inl e \<Rightarrow> map (\<lambda>token. (token, lit ''UNK'')) toks)"
  by (simp add: pos_tagging_def Let_def split: sum.splits)

lemma ner_snd:
  "snd (ner tk tagged) =
     (case ne_chunk tk tagged of
        Inl e \<Rightarrow> (None, None)
      | Inr t \<Rightarrow> (Some t, Some (named_entity_list t)))"
  using extract_entities_append [of _ "[]"]
  by (simp add: ner_def Let_def split: sum.splits entity_tree.splits)

lemma provision_result:
  "\<forall>name\<in>set names. \<forall>m. data_find tk name \<noteq> Inl (OtherError m) \<Longrightarrow>
   snd (provision tk names all_success) =
     Inr (all_success \<and> (\<forall>name\<in>set names. snd (download_nltk_resource tk name) = Inr True))"
proof (induction names arbitrary: all_success)
  case Nil
  then show ?case by simp
next
  case (Cons name names)
  from Cons.prems have "\<forall>m. data_find tk name \<noteq> Inl (OtherError m)" by simp
  then have "\<exists>b. snd (download_nltk_resource tk name) = Inr b"
    by (auto simp: download_nltk_resource_result split: sum.splits exn.splits)
  then obtain b where b: "snd (download_nltk_resource tk name) = Inr b" ..
  from Cons.prems have "\<forall>name\<in>set names. \<forall>m. data_find tk name \<noteq> Inl (OtherError m)" by simp
  then have "snd (provision tk names (if \<not> b then False else all_success)) =
      Inr ((if \<not> b then False else all_success) \<and>
           (\<forall>name\<in>set names. snd (download_nltk_resource tk name) = Inr True))"
    by (rule Cons.IH)
  with b show ?case
    by (cases "download_nltk_resource tk name"; cases b) (auto split: prod.splits)
qed

lemma provision_raises:
  "\<exists>name\<in>set names. \<exists>m. data_find tk name = Inl (OtherError m) \<Longrightarrow>
   \<exists>m. snd (provision tk names all_success) = Inl (OtherError m)"
proof (induction names arbitrary: all_success)
  case Nil
  then show ?case by simp
next
  case (Cons name names)
  show ?case
  proof (cases "\<exists>m. data_find tk name = Inl (OtherError m)")
    case True
    then obtain m where "data_find tk name = Inl (OtherError m)" ..
    then have "snd (download_nltk_resource tk name) = Inl (OtherError m)"
      by (simp add: download_nltk_resource_result)
    then show ?thesis
      by (cases "download_nltk_resource tk name") auto
  next
    case False
    then have "\<exists>b. snd (download_nltk_resource tk name) = Inr b"
      by (auto simp: download_nltk_resource_result split: sum.splits exn.splits)
    then obtain b where b: "snd (download_nltk_resource tk name) = Inr b" ..
    from False Cons.prems
    have "\<exists>name\<in>set names. \<exists>m. data_find tk name = Inl (OtherError m)" by auto
    then have "\<exists>m. snd (provision tk names (if \<not> b then False else all_success)) =
        Inl (OtherError m)"
      by (rule Cons.IH)
    with b show ?thesis
      by (cases "download_nltk_resource tk name") (auto split: prod.splits)
  qed
qed

section \<open>Facts about a run of the body\<close>

lemma process_empty: "process db tk sw [] = no_run"
  by (simp add: process_def)

lemma process_tokens:
  "ut \<noteq> [] \<Longrightarrow> tokens (process db tk sw ut) = Some (snd (tokenization db tk ut))"
  by (simp add: process_def no_run_def Let_def split: prod.splits sum.splits)

lemma process_filtered:
  "ut \<noteq> [] \<Longrightarrow>
   filtered_tokens (process db tk sw ut) =
     Some (remove_stopwords db sw (snd (tokenization db tk ut)))"
  by (simp add: process_def no_run_def Let_def split: prod.splits sum.splits)

lemma process_stemmed:
  "stemmed_tokens (process db tk sw ut) = Some st \<longleftrightarrow>
     ut \<noteq> [] \<and>
     map_result (porter_stem tk) (remove_stopwords db sw (snd (tokenization db tk ut))) = Inr st"
  by (auto simp: process_def no_run_def Let_def split: prod.splits sum.splits)

lemma process_lemmatized:
  "lemmatized_tokens (process db tk sw ut) = Some lm \<longleftrightarrow>
     ut \<noteq> [] \<and>
     (\<exists>st. map_result (porter_stem tk)
             (remove_stopwords db sw (snd (tokenization db tk ut))) = Inr st) \<and>
     map_result (lemmatize tk) (remove_stopwords db sw (snd (tokenization db tk ut))) = Inr lm"
  by (auto simp: process_def no_run_def Let_def split: prod.splits sum.splits)

lemma process_raised:
  "raised (process db tk sw ut) = None \<longleftrightarrow>
     ut = [] \<or>
     (\<exists>st. map_result (porter_stem tk)
             (remove_stopwords db sw (snd (tokenization db tk ut))) = Inr st) \<and>
     (\<exists>lm. map_result (lemmatize tk)
             (remove_stopwords db sw (snd (tokenization db tk ut))) = Inr lm)"
  by (auto simp: process_def no_run_def Let_def split: prod.splits sum.splits)

lemma process_tagged:
  "pos_tagged_tokens (process db tk sw ut) = Some tagged \<longleftrightarrow>
     ut \<noteq> [] \<and> raised (process db tk sw ut) = None \<and>
     tagged = snd (pos_tagging tk (snd (tokenization db tk ut)))"
  by (auto simp: process_def no_run_def Let_def split: prod.splits sum.splits)

lemma process_ner:
  "ut \<noteq> [] \<Longrightarrow> raised (process db tk sw ut) = None \<Longrightarrow>
   ner_tree (process db tk sw ut) =
     fst (snd (ner tk (snd (pos_tagging tk (snd (tokenization db tk ut)))))) \<and>
   named_entities (process db tk sw ut) =
     snd (snd (ner tk (snd (pos_tagging tk (snd (tokenization db tk ut))))))"
  by (auto simp: process_def no_run_def Let_def split: prod.splits sum.splits)

lemma process_ner_None:
  "raised (process db tk sw ut) \<noteq> None \<or> ut = [] \<Longrightarrow>
   ner_tree (process db tk sw ut) = None \<and> named_entities (process db tk sw ut) = None \<and>
   pos_tagged_tokens (process db tk sw ut) = None"
  by (cases "ut = []") (auto simp: process_def no_run_def Let_def split: prod.splits sum.splits)

lemma startup_last:
  "snd (startup tk) = Inr sw \<Longrightarrow>
   last (fst (startup tk)) = St_text_area (lit ''Enter Text Here:'') default_text"
  by (auto simp: startup_def Let_def split: prod.splits sum.splits)

section \<open>Resource provisioning: a fetch that fails without raising\<close>

text \<open>
  C1. The claim: \<^verbatim>\<open>download_nltk_resource\<close> returns true if the resource is there after
  the call and false if the fetch failed, as the docstring says (\<^verbatim>\<open>False otherwise\<close>).
  The code does not do that. Here nothing is installed and the download fails, which
  \<^verbatim>\<open>nltk.download\<close> reports by returning \<^verbatim>\<open>False\<close>; the script does not read that
  value, so the function returns \<^verbatim>\<open>True\<close> for a resource that is still missing, the
  loop ends with \<open>all_success\<close> true and the page reports that all resources were
  downloaded.
\<close>

theorem download_nltk_resource_true_on_failed_fetch:
  "data_find failed_fetch_toolkit (lit ''punkt'') = Inl (LookupError (lit ''punkt'')) \<and>
   download failed_fetch_toolkit (lit ''punkt'') = Inr False \<and>
   snd (download_nltk_resource failed_fetch_toolkit (lit ''punkt'')) = Inr True \<and>
   snd (provision failed_fetch_toolkit resources True) = Inr True \<and>
   St_success (lit ''All NLTK resources successfully checked/downloaded'') \<in>
     set (fst (startup failed_fetch_toolkit))"
  by code_simp

section \<open>Stopword removal\<close>

text \<open>
  C2. For every token sequence, the filtered sequence is the order-preserving
  subsequence of exactly those tokens whose lowercased form is not in the stop word set
  and which consist entirely of alphanumeric characters (of at least one, as
  \<^verbatim>\<open>isalnum\<close> asks; for a sequence without an empty token this is the plain "every
  character is alphanumeric"). In particular no filtered element is a stop word when
  lowercased and none contains a character that is not alphanumeric. This holds for
  whatever the character database says above code point 127. In a run on a non-empty
  text, \<^verbatim>\<open>filtered_tokens\<close> is this filter of \<^verbatim>\<open>tokens\<close>.
\<close>

theorem filtered_tokens_exact_subsequence:
  "remove_stopwords db sw toks =
     filter (\<lambda>w. str_lower db w \<notin> sw \<and> w \<noteq> [] \<and> (\<forall>c\<in>set w. char_isalnum db c)) toks \<and>
   subseq (remove_stopwords db sw toks) toks \<and>
   (\<forall>w\<in>set (remove_stopwords db sw toks).
      w \<in> set toks \<and> str_lower db w \<notin> sw \<and> (\<forall>c\<in>set w. char_isalnum db c)) \<and>
   ([] \<notin> set toks \<longrightarrow>
      remove_stopwords db sw toks =
        filter (\<lambda>w. str_lower db w \<notin> sw \<and> (\<forall>c\<in>set w. char_isalnum db c)) toks) \<and>
   (ut \<noteq> [] \<longrightarrow>
      (\<exists>toks'. tokens (process db tk sw ut) = Some toks' \<and>
         filtered_tokens (process db tk sw ut) = Some (remove_stopwords db sw toks')))"
proof -
  have exact: "remove_stopwords db sw toks =
      filter (\<lambda>w. str_lower db w \<notin> sw \<and> w \<noteq> [] \<and> (\<forall>c\<in>set w. char_isalnum db c)) toks"
    by (simp add: remove_stopwords_def str_isalnum_iff)
  have sub: "subseq (remove_stopwords db sw toks) toks"
    by (simp add: remove_stopwords_def)
  have members: "\<forall>w\<in>set (remove_stopwords db sw toks).
      w \<in> set toks \<and> str_lower db w \<notin> sw \<and> (\<forall>c\<in>set w. char_isalnum db c)"
    by (simp add: exact)
  have literal: "[] \<notin> set toks \<longrightarrow>
      remove_stopwords db sw toks =
        filter (\<lambda>w. str_lower db w \<notin> sw \<and> (\<forall>c\<in>set w. char_isalnum db c)) toks"
  proof
    assume "[] \<notin> set toks"
    then have "\<forall>w\<in>set toks.
        (str_lower db w \<notin> sw \<and> w \<noteq> [] \<and> (\<forall>c\<in>set w. char_isalnum db c)) =
        (str_lower db w \<notin> sw \<and> (\<forall>c\<in>set w. char_isalnum db c))"
      by auto
    then show "remove_stopwords db sw toks =
        filter (\<lambda>w. str_lower db w \<notin> sw \<and> (\<forall>c\<in>set w. char_isalnum db c)) toks"
      unfolding exact by (intro filter_cong) auto
  qed
  have bound: "ut \<noteq> [] \<longrightarrow>
      (\<exists>toks'. tokens (process db tk sw ut) = Some toks' \<and>
         filtered_tokens (process db tk sw ut) = Some (remove_stopwords db sw toks'))"
    by (simp add: process_tokens process_filtered)
  from exact sub members literal bound show ?thesis by blast
qed

text \<open>
  A stop word in capitals (\<^verbatim>\<open>The\<close>), a token with dots and a symbol are dropped; a
  word with an accented letter (\<^verbatim>\<open>U+00E9\<close>) is kept.
\<close>

theorem filtered_tokens_exact_subsequence_witness:
  "[] \<notin> set [lit ''Smith'', lit ''went'', lit ''to'', lit ''The'', lit ''U.S.A.'', lit ''$'',
              lit ''caf'' @ [0xE9], lit ''apples''] \<and>
   remove_stopwords latin1_tables {lit ''to'', lit ''the''}
     [lit ''Smith'', lit ''went'', lit ''to'', lit ''The'', lit ''U.S.A.'', lit ''$'',
      lit ''caf'' @ [0xE9], lit ''apples''] =
     [lit ''Smith'', lit ''went'', lit ''caf'' @ [0xE9], lit ''apples''] \<and>
   subseq [lit ''Smith'', lit ''went'', lit ''caf'' @ [0xE9], lit ''apples'']
     [lit ''Smith'', lit ''went'', lit ''to'', lit ''The'', lit ''U.S.A.'', lit ''$'',
      lit ''caf'' @ [0xE9], lit ''apples''] \<and>
   lit ''Smith went to The U.S.A.'' \<noteq> [] \<and>
   tokens (process latin1_tables sample_toolkit {lit ''to'', lit ''the''}
             (lit ''Smith went to The U.S.A.'')) =
     Some [lit ''Smith'', lit ''went'', lit ''to'', lit ''The'', lit ''U.S.A.''] \<and>
   filtered_tokens (process latin1_tables sample_toolkit {lit ''to'', lit ''the''}
                      (lit ''Smith went to The U.S.A.'')) =
     Some [lit ''Smith'', lit ''went'']"
proof -
  have kept: "remove_stopwords latin1_tables {lit ''to'', lit ''the''}
      [lit ''Smith'', lit ''went'', lit ''to'', lit ''The'', lit ''U.S.A.'', lit ''$'',
       lit ''caf'' @ [0xE9], lit ''apples''] =
      [lit ''Smith'', lit ''went'', lit ''caf'' @ [0xE9], lit ''apples'']"
    by code_simp
  have no_empty: "[] \<notin> set [lit ''Smith'', lit ''went'', lit ''to'', lit ''The'',
      lit ''U.S.A.'', lit ''$'', lit ''caf'' @ [0xE9], lit ''apples'']"
    by (simp add: lit_def)
  have given: "lit ''Smith went to The U.S.A.'' \<noteq> []"
    by (simp add: lit_def)
  have toks: "tokens (process latin1_tables sample_toolkit {lit ''to'', lit ''the''}
      (lit ''Smith went to The U.S.A.'')) =
      Some [lit ''Smith'', lit ''went'', lit ''to'', lit ''The'', lit ''U.S.A.'']"
    by code_simp
  have filt: "remove_stopwords latin1_tables {lit ''to'', lit ''the''}
      [lit ''Smith'', lit ''went'', lit ''to'', lit ''The'', lit ''U.S.A.''] =
      [lit ''Smith'', lit ''went'']"
    by code_simp
  note claim = filtered_tokens_exact_subsequence
    [where db = latin1_tables and sw = "{lit ''to'', lit ''the''}"
       and toks = "[lit ''Smith'', lit ''went'', lit ''to'', lit ''The'', lit ''U.S.A.'',
                    lit ''$'', lit ''caf'' @ [0xE9], lit ''apples'']"
       and ut = "lit ''Smith went to The U.S.A.''" and tk = sample_toolkit]
  from claim [THEN conjunct2, THEN conjunct1]
  have sub: "subseq [lit ''Smith'', lit ''went'', lit ''caf'' @ [0xE9], lit ''apples'']
      [lit ''Smith'', lit ''went'', lit ''to'', lit ''The'', lit ''U.S.A.'', lit ''$'',
       lit ''caf'' @ [0xE9], lit ''apples'']"
    unfolding kept .
  from claim [THEN conjunct2, THEN conjunct2, THEN conjunct2, THEN conjunct2] given
  obtain toks' where
    "tokens (process latin1_tables sample_toolkit {lit ''to'', lit ''the''}
       (lit ''Smith went to The U.S.A.'')) = Some toks'"
    "filtered_tokens (process latin1_tables sample_toolkit {lit ''to'', lit ''the''}
       (lit ''Smith went to The U.S.A.'')) =
     Some (remove_stopwords latin1_tables {lit ''to'', lit ''the''} toks')"
    by blast
  with toks filt
  have run: "filtered_tokens (process latin1_tables sample_toolkit {lit ''to'', lit ''the''}
      (lit ''Smith went to The U.S.A.'')) = Some [lit ''Smith'', lit ''went'']"
    by simp
  from no_empty kept sub given toks run show ?thesis by blast
qed

section \<open>Stemming and lemmatization\<close>

text \<open>
  C3. The stemmed and the lemmatized sequence are each the per-token image of the same
  filtered sequence: position \<open>i\<close> of either is the stem, respectively the lemma, of
  position \<open>i\<close> of \<^verbatim>\<open>filtered_tokens\<close> (the lemmatizer is not given the stems), so
  both have the length of the filtered sequence. Both exist for every non-empty input
  text on which the stemmer and the lemmatizer return.
\<close>

theorem stemmed_lemmatized_from_filtered:
  "(stemmed_tokens (process db tk sw ut) = Some st \<longrightarrow>
      (\<exists>filt. filtered_tokens (process db tk sw ut) = Some filt \<and> length st = length filt \<and>
         (\<forall>i<length filt. porter_stem tk (filt ! i) = Inr (st ! i)))) \<and>
   (lemmatized_tokens (process db tk sw ut) = Some lm \<longrightarrow>
      (\<exists>filt st. filtered_tokens (process db tk sw ut) = Some filt \<and>
         stemmed_tokens (process db tk sw ut) = Some st \<and>
         length lm = length filt \<and> length st = length filt \<and>
         (\<forall>i<length filt. lemmatize tk (filt ! i) = Inr (lm ! i)))) \<and>
   (ut \<noteq> [] \<and> (\<forall>w. \<exists>y. porter_stem tk w = Inr y) \<and> (\<forall>w. \<exists>y. lemmatize tk w = Inr y) \<longrightarrow>
      (\<exists>st lm. stemmed_tokens (process db tk sw ut) = Some st \<and>
         lemmatized_tokens (process db tk sw ut) = Some lm))"
proof -
  let ?filt = "remove_stopwords db sw (snd (tokenization db tk ut))"
  have stemmed: "stemmed_tokens (process db tk sw ut) = Some st \<longrightarrow>
      (\<exists>filt. filtered_tokens (process db tk sw ut) = Some filt \<and> length st = length filt \<and>
         (\<forall>i<length filt. porter_stem tk (filt ! i) = Inr (st ! i)))"
  proof
    assume "stemmed_tokens (process db tk sw ut) = Some st"
    then have ne: "ut \<noteq> []" and m: "map_result (porter_stem tk) ?filt = Inr st"
      by (simp_all add: process_stemmed)
    from ne have "filtered_tokens (process db tk sw ut) = Some ?filt"
      by (rule process_filtered)
    with m show "\<exists>filt. filtered_tokens (process db tk sw ut) = Some filt \<and>
        length st = length filt \<and> (\<forall>i<length filt. porter_stem tk (filt ! i) = Inr (st ! i))"
      by (auto simp: map_result_length map_result_nth)
  qed
  have lemmatized: "lemmatized_tokens (process db tk sw ut) = Some lm \<longrightarrow>
      (\<exists>filt st. filtered_tokens (process db tk sw ut) = Some filt \<and>
         stemmed_tokens (process db tk sw ut) = Some st \<and>
         length lm = length filt \<and> length st = length filt \<and>
         (\<forall>i<length filt. lemmatize tk (filt ! i) = Inr (lm ! i)))"
  proof
    assume "lemmatized_tokens (process db tk sw ut) = Some lm"
    then obtain st' where ne: "ut \<noteq> []"
      and s: "map_result (porter_stem tk) ?filt = Inr st'"
      and m: "map_result (lemmatize tk) ?filt = Inr lm"
      by (auto simp: process_lemmatized)
    from ne have f: "filtered_tokens (process db tk sw ut) = Some ?filt"
      by (rule process_filtered)
    from ne s have "stemmed_tokens (process db tk sw ut) = Some st'"
      by (simp add: process_stemmed)
    with f s m show "\<exists>filt st. filtered_tokens (process db tk sw ut) = Some filt \<and>
         stemmed_tokens (process db tk sw ut) = Some st \<and>
         length lm = length filt \<and> length st = length filt \<and>
         (\<forall>i<length filt. lemmatize tk (filt ! i) = Inr (lm ! i))"
      by (auto simp: map_result_length map_result_nth)
  qed
  have both: "ut \<noteq> [] \<and> (\<forall>w. \<exists>y. porter_stem tk w = Inr y) \<and>
      (\<forall>w. \<exists>y. lemmatize tk w = Inr y) \<longrightarrow>
      (\<exists>st lm. stemmed_tokens (process db tk sw ut) = Some st \<and>
         lemmatized_tokens (process db tk sw ut) = Some lm)"
  proof
    assume a: "ut \<noteq> [] \<and> (\<forall>w. \<exists>y. porter_stem tk w = Inr y) \<and>
      (\<forall>w. \<exists>y. lemmatize tk w = Inr y)"
    then obtain st' where s: "map_result (porter_stem tk) ?filt = Inr st'"
      using map_result_returns [of ?filt "porter_stem tk"] by auto
    from a obtain lm' where m: "map_result (lemmatize tk) ?filt = Inr lm'"
      using map_result_returns [of ?filt "lemmatize tk"] by auto
    from a s m show "\<exists>st lm. stemmed_tokens (process db tk sw ut) = Some st \<and>
         lemmatized_tokens (process db tk sw ut) = Some lm"
      by (auto simp: process_stemmed process_lemmatized)
  qed
  from stemmed lemmatized both show ?thesis by blast
qed

text \<open>
  With a stemmer that lowercases and a lemmatizer that changes nothing, the lemma of
  \<^verbatim>\<open>Smith\<close> is \<^verbatim>\<open>Smith\<close>, not the lemma of the stem \<^verbatim>\<open>smith\<close>.
\<close>

theorem stemmed_lemmatized_from_filtered_witness:
  "lit ''Smith went to Rome'' \<noteq> [] \<and>
   (\<forall>w. \<exists>y. porter_stem sample_toolkit w = Inr y) \<and>
   (\<forall>w. \<exists>y. lemmatize sample_toolkit w = Inr y) \<and>
   filtered_tokens (process latin1_tables sample_toolkit {lit ''to''}
                      (lit ''Smith went to Rome'')) =
     Some [lit ''Smith'', lit ''went'', lit ''Rome''] \<and>
   stemmed_tokens (process latin1_tables sample_toolkit {lit ''to''}
                     (lit ''Smith went to Rome'')) =
     Some [lit ''smith'', lit ''went'', lit ''rome''] \<and>
   lemmatized_tokens (process latin1_tables sample_toolkit {lit ''to''}
                        (lit ''Smith went to Rome'')) =
     Some [lit ''Smith'', lit ''went'', lit ''Rome''] \<and>
   length [lit ''smith'', lit ''went'', lit ''rome''] =
     length [lit ''Smith'', lit ''went'', lit ''Rome''] \<and>
   lemmatize sample_toolkit ([lit ''Smith'', lit ''went'', lit ''Rome''] ! 0) =
     Inr ([lit ''Smith'', lit ''went'', lit ''Rome''] ! 0)"
proof -
  have total: "(\<forall>w. \<exists>y. porter_stem sample_toolkit w = Inr y) \<and>
      (\<forall>w. \<exists>y. lemmatize sample_toolkit w = Inr y)"
    by (simp add: sample_toolkit_def)
  have given: "lit ''Smith went to Rome'' \<noteq> []"
    by (simp add: lit_def)
  have run: "filtered_tokens (process latin1_tables sample_toolkit {lit ''to''}
        (lit ''Smith went to Rome'')) =
      Some [lit ''Smith'', lit ''went'', lit ''Rome''] \<and>
    stemmed_tokens (process latin1_tables sample_toolkit {lit ''to''}
        (lit ''Smith went to Rome'')) =
      Some [lit ''smith'', lit ''went'', lit ''rome''] \<and>
    lemmatized_tokens (process latin1_tables sample_toolkit {lit ''to''}
        (lit ''Smith went to Rome'')) =
      Some [lit ''Smith'', lit ''went'', lit ''Rome'']"
    by code_simp
  from stemmed_lemmatized_from_filtered
    [where db = latin1_tables and tk = sample_toolkit and sw = "{lit ''to''}"
       and ut = "lit ''Smith went to Rome''"
       and st = "[lit ''smith'', lit ''went'', lit ''rome'']"
       and lm = "[lit ''Smith'', lit ''went'', lit ''Rome'']"]
    run total given
  show ?thesis by auto
qed

section \<open>Tokenization and tagging\<close>




text \<open>
  C5. When \<^verbatim>\<open>word_tokenize\<close> raises, \<^verbatim>\<open>tokens\<close> is \<^verbatim>\<open>user_text.split()\<close>: the text
  separated at whitespace into a flat list. \<^verbatim>\<open>"buy some delicious apples"\<close> gives
  \<^verbatim>\<open>["buy", "some", "delicious", "apples"]\<close> under every character database. No token
  is empty, none holds whitespace, together the tokens are the text without its
  whitespace, and each token is a whole run: after the leading whitespace, the first
  token is everything up to the next whitespace, and the rest is the split of what
  follows.
\<close>

theorem tokenization_fallback_split:
  "(ut \<noteq> [] \<and> word_tokenize tk ut = Inl e \<longrightarrow>
      tokens (process db tk sw ut) = Some (split db ut)) \<and>
   split db (lit ''buy some delicious apples'') =
     [lit ''buy'', lit ''some'', lit ''delicious'', lit ''apples''] \<and>
   [] \<notin> set (split db ut) \<and>
   (\<forall>t\<in>set (split db ut). \<forall>c\<in>set t. \<not> char_isspace db c) \<and>
   concat (split db ut) = filter (\<lambda>c. \<not> char_isspace db c) ut \<and>
   split db ut =
     (case dropWhile (char_isspace db) ut of
        [] \<Rightarrow> []
      | c # rest \<Rightarrow>
          takeWhile (\<lambda>c. \<not> char_isspace db c) (c # rest) #
          split db (dropWhile (\<lambda>c. \<not> char_isspace db c) (c # rest)))"
proof -
  have fallback: "ut \<noteq> [] \<and> word_tokenize tk ut = Inl e \<longrightarrow>
      tokens (process db tk sw ut) = Some (split db ut)"
    by (simp add: process_tokens tokenization_snd)
  have example: "split db (lit ''buy some delicious apples'') =
      [lit ''buy'', lit ''some'', lit ''delicious'', lit ''apples'']"
    by (simp add: split_def char_isspace_def ascii_whitespace_def lit_def)
  have no_empty: "[] \<notin> set (split db ut)"
    unfolding split_def by (rule split_from_no_empty)
  have no_space: "\<forall>t\<in>set (split db ut). \<forall>c\<in>set t. \<not> char_isspace db c"
    unfolding split_def by (rule split_from_no_space) simp
  have rest: "concat (split db ut) = filter (\<lambda>c. \<not> char_isspace db c) ut"
    by (simp add: split_def concat_split_from)
  have runs: "split db ut =
     (case dropWhile (char_isspace db) ut of
        [] \<Rightarrow> []
      | c # rest \<Rightarrow>
          takeWhile (\<lambda>c. \<not> char_isspace db c) (c # rest) #
          split db (dropWhile (\<lambda>c. \<not> char_isspace db c) (c # rest)))"
    by (rule split_unfold)
  from fallback example no_empty no_space rest runs show ?thesis by blast
qed

text \<open>
  The second text is separated at a no-break space (\<^verbatim>\<open>U+00A0\<close>).
\<close>

theorem tokenization_fallback_split_witness:
  "lit ''buy some delicious apples'' \<noteq> [] \<and>
   word_tokenize offline_toolkit (lit ''buy some delicious apples'') =
     Inl (LookupError (lit ''punkt'')) \<and>
   tokens (process latin1_tables offline_toolkit {lit ''some''}
             (lit ''buy some delicious apples'')) =
     Some [lit ''buy'', lit ''some'', lit ''delicious'', lit ''apples''] \<and>
   tokens (process latin1_tables offline_toolkit {} (lit ''a'' @ [0xA0] @ lit ''b'')) =
     Some [lit ''a'', lit ''b'']"
proof -
  have given: "lit ''buy some delicious apples'' \<noteq> [] \<and> lit ''a'' @ [0xA0] @ lit ''b'' \<noteq> []"
    by (simp add: lit_def)
  have raises: "\<forall>ut. word_tokenize offline_toolkit ut = Inl (LookupError (lit ''punkt''))"
    by (simp add: offline_toolkit_def)
  have nbsp: "split latin1_tables (lit ''a'' @ [0xA0] @ lit ''b'') = [lit ''a'', lit ''b'']"
    by code_simp
  from tokenization_fallback_split
    [where db = latin1_tables and ut = "lit ''buy some delicious apples''"
       and tk = offline_toolkit and e = "LookupError (lit ''punkt'')" and sw = "{lit ''some''}",
     THEN conjunct1]
    given raises
  have "tokens (process latin1_tables offline_toolkit {lit ''some''}
      (lit ''buy some delicious apples'')) =
      Some (split latin1_tables (lit ''buy some delicious apples''))"
    by blast
  with tokenization_fallback_split [where db = latin1_tables, THEN conjunct2, THEN conjunct1]
  have example: "tokens (process latin1_tables offline_toolkit {lit ''some''}
      (lit ''buy some delicious apples'')) =
      Some [lit ''buy'', lit ''some'', lit ''delicious'', lit ''apples'']"
    by simp
  from tokenization_fallback_split
    [where db = latin1_tables and ut = "lit ''a'' @ [0xA0] @ lit ''b''"
       and tk = offline_toolkit and e = "LookupError (lit ''punkt'')" and sw = "{}",
     THEN conjunct1]
    given raises
  have "tokens (process latin1_tables offline_toolkit {} (lit ''a'' @ [0xA0] @ lit ''b'')) =
      Some (split latin1_tables (lit ''a'' @ [0xA0] @ lit ''b''))"
    by blast
  with nbsp
  have wide: "tokens (process latin1_tables offline_toolkit {}
      (lit ''a'' @ [0xA0] @ lit ''b'')) = Some [lit ''a'', lit ''b'']"
    by simp
  from given raises example wide show ?thesis by blast
qed

text \<open>
  C6. When \<^verbatim>\<open>pos_tag\<close> raises, every token of \<^verbatim>\<open>tokens\<close>, the full unfiltered
  sequence, is paired with the one tag \<^verbatim>\<open>"UNK"\<close>, and that list is
  \<^verbatim>\<open>pos_tagged_tokens\<close>.
\<close>

theorem pos_tag_fallback_unknown:
  "(pos_tag tk toks = Inl e \<longrightarrow>
      snd (pos_tagging tk toks) = map (\<lambda>token. (token, lit ''UNK'')) toks) \<and>
   (raised (process db tk sw ut) = None \<and> tokens (process db tk sw ut) = Some toks \<and>
    pos_tag tk toks = Inl e \<longrightarrow>
      pos_tagged_tokens (process db tk sw ut) =
        Some (map (\<lambda>token. (token, lit ''UNK'')) toks))"
proof -
  have stage: "pos_tag tk toks = Inl e \<longrightarrow>
      snd (pos_tagging tk toks) = map (\<lambda>token. (token, lit ''UNK'')) toks"
    by (simp add: pos_tagging_snd)
  have run: "raised (process db tk sw ut) = None \<and> tokens (process db tk sw ut) = Some toks \<and>
    pos_tag tk toks = Inl e \<longrightarrow>
      pos_tagged_tokens (process db tk sw ut) =
        Some (map (\<lambda>token. (token, lit ''UNK'')) toks)"
  proof
    assume a: "raised (process db tk sw ut) = None \<and>
      tokens (process db tk sw ut) = Some toks \<and> pos_tag tk toks = Inl e"
    then have ne: "ut \<noteq> []" by (auto simp: process_empty no_run_def)
    with a have "toks = snd (tokenization db tk ut)" by (simp add: process_tokens)
    with a ne show "pos_tagged_tokens (process db tk sw ut) =
        Some (map (\<lambda>token. (token, lit ''UNK'')) toks)"
      by (simp add: process_tagged pos_tagging_snd)
  qed
  from stage run show ?thesis by blast
qed

text \<open>
  Here the filter keeps no token at all, and all three tokens are paired.
\<close>

theorem pos_tag_fallback_unknown_witness:
  "raised (process latin1_tables no_tagger_toolkit {lit ''the''} (lit ''the U.S.A. !'')) = None \<and>
   tokens (process latin1_tables no_tagger_toolkit {lit ''the''} (lit ''the U.S.A. !'')) =
     Some [lit ''the'', lit ''U.S.A.'', lit ''!''] \<and>
   pos_tag no_tagger_toolkit [lit ''the'', lit ''U.S.A.'', lit ''!''] =
     Inl (LookupError (lit ''averaged_perceptron_tagger'')) \<and>
   filtered_tokens (process latin1_tables no_tagger_toolkit {lit ''the''} (lit ''the U.S.A. !'')) =
     Some [] \<and>
   pos_tagged_tokens
       (process latin1_tables no_tagger_toolkit {lit ''the''} (lit ''the U.S.A. !'')) =
     Some [(lit ''the'', lit ''UNK''), (lit ''U.S.A.'', lit ''UNK''), (lit ''!'', lit ''UNK'')]"
proof -
  let ?ut = "lit ''the U.S.A. !''"
  let ?toks = "[lit ''the'', lit ''U.S.A.'', lit ''!'']"
  have run: "raised (process latin1_tables no_tagger_toolkit {lit ''the''} ?ut) = None \<and>
    tokens (process latin1_tables no_tagger_toolkit {lit ''the''} ?ut) = Some ?toks \<and>
    filtered_tokens (process latin1_tables no_tagger_toolkit {lit ''the''} ?ut) = Some []"
    by code_simp
  have missing: "pos_tag no_tagger_toolkit ?toks =
      Inl (LookupError (lit ''averaged_perceptron_tagger''))"
    by (simp add: no_tagger_toolkit_def sample_toolkit_def)
  from pos_tag_fallback_unknown
    [where tk = no_tagger_toolkit and toks = ?toks
       and e = "LookupError (lit ''averaged_perceptron_tagger'')"
       and db = latin1_tables and sw = "{lit ''the''}" and ut = ?ut]
    run missing
  show ?thesis by simp
qed

section \<open>Named entities\<close>

text \<open>
  C7. The loop over the tree computes the specification's entity list: the immediate
  children in order, every labelled group giving its leaf tokens joined by one space,
  paired with its label, every plain \<^verbatim>\<open>(token, tag)\<close> child skipped. A tree without a
  labelled group gives the empty list, bound as \<^verbatim>\<open>named_entities\<close> and reported as
  "no named entities", not as an error.
\<close>

theorem named_entities_extraction:
  "(ne_chunk tk tagged = Inr t \<longrightarrow> snd (ner tk tagged) = (Some t, Some (named_entity_list t))) \<and>
   (ner_tree (process db tk sw ut) = Some t \<longrightarrow>
      named_entities (process db tk sw ut) = Some (named_entity_list t)) \<and>
   named_entity_list (Tree root []) = [] \<and>
   named_entity_list (Tree root (Leaf token pos # rest)) = named_entity_list (Tree root rest) \<and>
   named_entity_list (Tree root (Subtree label below # rest)) =
     (join (lit '' '') (map fst (leaves (Subtree label below))), label) #
       named_entity_list (Tree root rest) \<and>
   ((\<forall>child\<in>set children. \<exists>token pos. child = Leaf token pos) \<longrightarrow>
      named_entity_list (Tree root children) = []) \<and>
   (ne_chunk tk tagged = Inr (Tree root children) \<and>
    (\<forall>child\<in>set children. \<exists>token pos. child = Leaf token pos) \<longrightarrow>
      ner tk tagged =
        ([St_caption, St_text_tree (Tree root children),
          St_write_str (lit ''No named entities detected.'')],
         Some (Tree root children), Some []))"
proof -
  have stage: "ne_chunk tk tagged = Inr t \<longrightarrow>
      snd (ner tk tagged) = (Some t, Some (named_entity_list t))"
    by (simp add: ner_snd)
  have run: "ner_tree (process db tk sw ut) = Some t \<longrightarrow>
      named_entities (process db tk sw ut) = Some (named_entity_list t)"
  proof
    assume a: "ner_tree (process db tk sw ut) = Some t"
    have ok: "ut \<noteq> [] \<and> raised (process db tk sw ut) = None"
    proof (rule ccontr)
      assume "\<not> (ut \<noteq> [] \<and> raised (process db tk sw ut) = None)"
      then have "raised (process db tk sw ut) \<noteq> None \<or> ut = []" by auto
      then have "ner_tree (process db tk sw ut) = None" by (simp add: process_ner_None)
      with a show False by simp
    qed
    with a show "named_entities (process db tk sw ut) = Some (named_entity_list t)"
      by (auto simp: process_ner ner_snd split: sum.splits)
  qed
  have nil: "named_entity_list (Tree root []) = []"
    by (simp add: named_entity_list_def)
  have leaf: "named_entity_list (Tree root (Leaf token pos # rest)) =
      named_entity_list (Tree root rest)"
    by (simp add: named_entity_list_def)
  have group: "named_entity_list (Tree root (Subtree label below # rest)) =
     (join (lit '' '') (map fst (leaves (Subtree label below))), label) #
       named_entity_list (Tree root rest)"
    by (simp add: named_entity_list_def)
  have none: "(\<forall>child\<in>set children. \<exists>token pos. child = Leaf token pos) \<longrightarrow>
      named_entity_list (Tree root children) = []"
    by (induction children) (auto simp: named_entity_list_def)
  have shown: "ne_chunk tk tagged = Inr (Tree root children) \<and>
    (\<forall>child\<in>set children. \<exists>token pos. child = Leaf token pos) \<longrightarrow>
      ner tk tagged =
        ([St_caption, St_text_tree (Tree root children),
          St_write_str (lit ''No named entities detected.'')],
         Some (Tree root children), Some [])"
    using none extract_entities_append [of children "[]" root]
    by (simp add: ner_def Let_def)
  from stage run nil leaf group none shown show ?thesis by blast
qed

theorem named_entities_extraction_witness:
  "ne_chunk two_entities_toolkit [(lit ''x'', lit ''NN'')] =
     Inr (Tree (lit ''S'')
        [Subtree (lit ''PERSON'') [Leaf (lit ''John'') (lit ''NNP''),
                                   Leaf (lit ''Smith'') (lit ''NNP'')],
         Leaf (lit ''visited'') (lit ''VBD''),
         Subtree (lit ''GPE'') [Leaf (lit ''New'') (lit ''NNP''),
                                Leaf (lit ''York'') (lit ''NNP'')]]) \<and>
   snd (snd (ner two_entities_toolkit [(lit ''x'', lit ''NN'')])) =
     Some [(lit ''John Smith'', lit ''PERSON''), (lit ''New York'', lit ''GPE'')] \<and>
   ner_tree (process latin1_tables sample_toolkit {lit ''to''} (lit ''Smith went'')) =
     Some (Tree (lit ''S'')
       [Subtree (lit ''PERSON'') [Leaf (lit ''Smith'') (lit ''NNP'')],
        Leaf (lit ''went'') (lit ''NN'')]) \<and>
   named_entities (process latin1_tables sample_toolkit {lit ''to''} (lit ''Smith went'')) =
     Some [(lit ''Smith'', lit ''PERSON'')] \<and>
   ne_chunk sample_toolkit [(lit ''went'', lit ''NN''), (lit ''home'', lit ''NN'')] =
     Inr (Tree (lit ''S'') [Leaf (lit ''went'') (lit ''NN''), Leaf (lit ''home'') (lit ''NN'')]) \<and>
   ner sample_toolkit [(lit ''went'', lit ''NN''), (lit ''home'', lit ''NN'')] =
     ([St_caption,
       St_text_tree
         (Tree (lit ''S'') [Leaf (lit ''went'') (lit ''NN''), Leaf (lit ''home'') (lit ''NN'')]),
       St_write_str (lit ''No named entities detected.'')],
      Some (Tree (lit ''S'') [Leaf (lit ''went'') (lit ''NN''), Leaf (lit ''home'') (lit ''NN'')]),
      Some [])"
proof -
  let ?two = "Tree (lit ''S'')
        [Subtree (lit ''PERSON'') [Leaf (lit ''John'') (lit ''NNP''),
                                   Leaf (lit ''Smith'') (lit ''NNP'')],
         Leaf (lit ''visited'') (lit ''VBD''),
         Subtree (lit ''GPE'') [Leaf (lit ''New'') (lit ''NNP''),
                                Leaf (lit ''York'') (lit ''NNP'')]]"
  let ?one = "Tree (lit ''S'')
       [Subtree (lit ''PERSON'') [Leaf (lit ''Smith'') (lit ''NNP'')],
        Leaf (lit ''went'') (lit ''NN'')]"
  let ?plain = "[Leaf (lit ''went'') (lit ''NN''), Leaf (lit ''home'') (lit ''NN'')]"
  have two: "ne_chunk two_entities_toolkit [(lit ''x'', lit ''NN'')] = Inr ?two"
    by (simp add: two_entities_toolkit_def sample_toolkit_def)
  have two_list: "named_entity_list ?two =
      [(lit ''John Smith'', lit ''PERSON''), (lit ''New York'', lit ''GPE'')]"
    by code_simp
  have one: "ner_tree (process latin1_tables sample_toolkit {lit ''to''} (lit ''Smith went'')) =
      Some ?one"
    by code_simp
  have one_list: "named_entity_list ?one = [(lit ''Smith'', lit ''PERSON'')]"
    by code_simp
  have none: "ne_chunk sample_toolkit [(lit ''went'', lit ''NN''), (lit ''home'', lit ''NN'')] =
      Inr (Tree (lit ''S'') ?plain)"
    by code_simp
  have plain: "\<forall>child\<in>set ?plain. \<exists>token pos. child = Leaf token pos"
    by simp
  from named_entities_extraction
    [where tk = two_entities_toolkit and tagged = "[(lit ''x'', lit ''NN'')]" and t = ?two,
     THEN conjunct1]
    two
  have "snd (ner two_entities_toolkit [(lit ''x'', lit ''NN'')]) =
      (Some ?two, Some (named_entity_list ?two))"
    by blast
  then have first: "snd (snd (ner two_entities_toolkit [(lit ''x'', lit ''NN'')])) =
      Some [(lit ''John Smith'', lit ''PERSON''), (lit ''New York'', lit ''GPE'')]"
    unfolding two_list by simp
  from named_entities_extraction
    [where db = latin1_tables and tk = sample_toolkit and t = ?one and sw = "{lit ''to''}"
       and ut = "lit ''Smith went''",
     THEN conjunct2, THEN conjunct1]
    one
  have "named_entities (process latin1_tables sample_toolkit {lit ''to''} (lit ''Smith went'')) =
      Some (named_entity_list ?one)"
    by blast
  then have second:
    "named_entities (process latin1_tables sample_toolkit {lit ''to''} (lit ''Smith went'')) =
      Some [(lit ''Smith'', lit ''PERSON'')]"
    unfolding one_list .
  from named_entities_extraction
    [where tk = sample_toolkit
       and tagged = "[(lit ''went'', lit ''NN''), (lit ''home'', lit ''NN'')]"
       and root = "lit ''S''" and children = ?plain,
     THEN conjunct2, THEN conjunct2, THEN conjunct2, THEN conjunct2, THEN conjunct2,
     THEN conjunct2]
    none plain
  have third: "ner sample_toolkit [(lit ''went'', lit ''NN''), (lit ''home'', lit ''NN'')] =
     ([St_caption, St_text_tree (Tree (lit ''S'') ?plain),
       St_write_str (lit ''No named entities detected.'')],
      Some (Tree (lit ''S'') ?plain), Some [])"
    by blast
  from two one none first second third show ?thesis by blast
qed

text \<open>
  C8. Every run on a non-empty text that stemming and lemmatization do not end (as
  when the stemmer and the lemmatizer return on every word) applies \<^verbatim>\<open>pos_tag\<close> to
  \<^verbatim>\<open>tokens\<close>, which is the tokenizer's whole answer (or the whole split), stop words
  and punctuation included, and binds the result (or the \<^verbatim>\<open>"UNK"\<close> pairs over the
  same tokens) as \<^verbatim>\<open>pos_tagged_tokens\<close>; it applies \<^verbatim>\<open>ne_chunk\<close> to that tagged
  sequence and binds the tree and its entity list. Neither reads the filtered
  sequence: two complete runs on the same text with different stop word sets have the
  same tagged sequence, tree and entity list.
\<close>

theorem tagging_and_chunking_read_unfiltered:
  "(ut \<noteq> [] \<and> (\<forall>w. \<exists>y. porter_stem tk w = Inr y) \<and> (\<forall>w. \<exists>y. lemmatize tk w = Inr y) \<longrightarrow>
      raised (process db tk sw ut) = None) \<and>
   (ut \<noteq> [] \<and> raised (process db tk sw ut) = None \<longrightarrow>
      (\<exists>toks tagged.
         tokens (process db tk sw ut) = Some toks \<and>
         toks = (case word_tokenize tk ut of Inr ts \<Rightarrow> ts | Inl e \<Rightarrow> split db ut) \<and>
         pos_tagged_tokens (process db tk sw ut) = Some tagged \<and>
         tagged = (case pos_tag tk toks of
                     Inr tg \<Rightarrow> tg
                   | Inl e \<Rightarrow> map (\<lambda>token. (token, lit ''UNK'')) toks) \<and>
         ner_tree (process db tk sw ut) =
           (case ne_chunk tk tagged of Inr t \<Rightarrow> Some t | Inl e \<Rightarrow> None) \<and>
         named_entities (process db tk sw ut) =
           (case ne_chunk tk tagged of Inr t \<Rightarrow> Some (named_entity_list t) | Inl e \<Rightarrow> None))) \<and>
   (pos_tagged_tokens (process db tk sw ut) = Some tagged \<longrightarrow>
      (\<exists>toks. tokens (process db tk sw ut) = Some toks \<and>
         (pos_tag tk toks = Inr tagged \<or>
          (\<exists>e. pos_tag tk toks = Inl e) \<and> tagged = map (\<lambda>token. (token, lit ''UNK'')) toks))) \<and>
   (ner_tree (process db tk sw ut) = Some t \<longrightarrow>
      (\<exists>tagged. pos_tagged_tokens (process db tk sw ut) = Some tagged \<and>
         ne_chunk tk tagged = Inr t)) \<and>
   (raised (process db tk sw ut) = None \<and> raised (process db tk sw' ut) = None \<longrightarrow>
      pos_tagged_tokens (process db tk sw ut) = pos_tagged_tokens (process db tk sw' ut) \<and>
      ner_tree (process db tk sw ut) = ner_tree (process db tk sw' ut) \<and>
      named_entities (process db tk sw ut) = named_entities (process db tk sw' ut))"
proof -
  let ?toks = "snd (tokenization db tk ut)"
  let ?filt = "remove_stopwords db sw ?toks"
  let ?tagged = "snd (pos_tagging tk ?toks)"
  have complete: "ut \<noteq> [] \<and> (\<forall>w. \<exists>y. porter_stem tk w = Inr y) \<and>
      (\<forall>w. \<exists>y. lemmatize tk w = Inr y) \<longrightarrow> raised (process db tk sw ut) = None"
  proof
    assume a: "ut \<noteq> [] \<and> (\<forall>w. \<exists>y. porter_stem tk w = Inr y) \<and>
      (\<forall>w. \<exists>y. lemmatize tk w = Inr y)"
    then have "\<exists>st. map_result (porter_stem tk) ?filt = Inr st"
      using map_result_returns [of ?filt "porter_stem tk"] by auto
    moreover from a have "\<exists>lm. map_result (lemmatize tk) ?filt = Inr lm"
      using map_result_returns [of ?filt "lemmatize tk"] by auto
    ultimately show "raised (process db tk sw ut) = None"
      by (simp add: process_raised)
  qed
  have produced: "ut \<noteq> [] \<and> raised (process db tk sw ut) = None \<longrightarrow>
      (\<exists>toks tagged.
         tokens (process db tk sw ut) = Some toks \<and>
         toks = (case word_tokenize tk ut of Inr ts \<Rightarrow> ts | Inl e \<Rightarrow> split db ut) \<and>
         pos_tagged_tokens (process db tk sw ut) = Some tagged \<and>
         tagged = (case pos_tag tk toks of
                     Inr tg \<Rightarrow> tg
                   | Inl e \<Rightarrow> map (\<lambda>token. (token, lit ''UNK'')) toks) \<and>
         ner_tree (process db tk sw ut) =
           (case ne_chunk tk tagged of Inr t \<Rightarrow> Some t | Inl e \<Rightarrow> None) \<and>
         named_entities (process db tk sw ut) =
           (case ne_chunk tk tagged of Inr t \<Rightarrow> Some (named_entity_list t) | Inl e \<Rightarrow> None))"
  proof
    assume a: "ut \<noteq> [] \<and> raised (process db tk sw ut) = None"
    then have t: "tokens (process db tk sw ut) = Some ?toks"
      by (simp add: process_tokens)
    have t': "?toks = (case word_tokenize tk ut of Inr ts \<Rightarrow> ts | Inl e \<Rightarrow> split db ut)"
      by (rule tokenization_snd)
    from a have g: "pos_tagged_tokens (process db tk sw ut) = Some ?tagged"
      by (simp add: process_tagged)
    have g': "?tagged = (case pos_tag tk ?toks of
                     Inr tg \<Rightarrow> tg
                   | Inl e \<Rightarrow> map (\<lambda>token. (token, lit ''UNK'')) ?toks)"
      by (rule pos_tagging_snd)
    from a have n: "ner_tree (process db tk sw ut) =
        (case ne_chunk tk ?tagged of Inr t \<Rightarrow> Some t | Inl e \<Rightarrow> None)"
      and n': "named_entities (process db tk sw ut) =
        (case ne_chunk tk ?tagged of Inr t \<Rightarrow> Some (named_entity_list t) | Inl e \<Rightarrow> None)"
      by (simp_all add: process_ner ner_snd split: sum.splits)
    from t t' g g' n n' show "\<exists>toks tagged.
         tokens (process db tk sw ut) = Some toks \<and>
         toks = (case word_tokenize tk ut of Inr ts \<Rightarrow> ts | Inl e \<Rightarrow> split db ut) \<and>
         pos_tagged_tokens (process db tk sw ut) = Some tagged \<and>
         tagged = (case pos_tag tk toks of
                     Inr tg \<Rightarrow> tg
                   | Inl e \<Rightarrow> map (\<lambda>token. (token, lit ''UNK'')) toks) \<and>
         ner_tree (process db tk sw ut) =
           (case ne_chunk tk tagged of Inr t \<Rightarrow> Some t | Inl e \<Rightarrow> None) \<and>
         named_entities (process db tk sw ut) =
           (case ne_chunk tk tagged of Inr t \<Rightarrow> Some (named_entity_list t) | Inl e \<Rightarrow> None)"
      by blast
  qed
  have tagging: "pos_tagged_tokens (process db tk sw ut) = Some tagged \<longrightarrow>
      (\<exists>toks. tokens (process db tk sw ut) = Some toks \<and>
         (pos_tag tk toks = Inr tagged \<or>
          (\<exists>e. pos_tag tk toks = Inl e) \<and> tagged = map (\<lambda>token. (token, lit ''UNK'')) toks))"
  proof
    assume "pos_tagged_tokens (process db tk sw ut) = Some tagged"
    then have ne: "ut \<noteq> []" and tg: "tagged = ?tagged"
      by (simp_all add: process_tagged)
    from ne have "tokens (process db tk sw ut) = Some ?toks" by (rule process_tokens)
    moreover from tg have "pos_tag tk ?toks = Inr tagged \<or>
        (\<exists>e. pos_tag tk ?toks = Inl e) \<and> tagged = map (\<lambda>token. (token, lit ''UNK'')) ?toks"
      by (cases "pos_tag tk ?toks") (simp_all add: pos_tagging_snd)
    ultimately show "\<exists>toks. tokens (process db tk sw ut) = Some toks \<and>
         (pos_tag tk toks = Inr tagged \<or>
          (\<exists>e. pos_tag tk toks = Inl e) \<and> tagged = map (\<lambda>token. (token, lit ''UNK'')) toks)"
      by blast
  qed
  have chunking: "ner_tree (process db tk sw ut) = Some t \<longrightarrow>
      (\<exists>tagged. pos_tagged_tokens (process db tk sw ut) = Some tagged \<and>
         ne_chunk tk tagged = Inr t)"
  proof
    assume a: "ner_tree (process db tk sw ut) = Some t"
    have ok: "ut \<noteq> [] \<and> raised (process db tk sw ut) = None"
    proof (rule ccontr)
      assume "\<not> (ut \<noteq> [] \<and> raised (process db tk sw ut) = None)"
      then have "raised (process db tk sw ut) \<noteq> None \<or> ut = []" by auto
      then have "ner_tree (process db tk sw ut) = None" by (simp add: process_ner_None)
      with a show False by simp
    qed
    then have "pos_tagged_tokens (process db tk sw ut) = Some ?tagged"
      by (simp add: process_tagged)
    moreover from ok a have "ne_chunk tk ?tagged = Inr t"
      by (auto simp: process_ner ner_snd split: sum.splits)
    ultimately show "\<exists>tagged. pos_tagged_tokens (process db tk sw ut) = Some tagged \<and>
         ne_chunk tk tagged = Inr t"
      by blast
  qed
  have independent: "raised (process db tk sw ut) = None \<and>
      raised (process db tk sw' ut) = None \<longrightarrow>
      pos_tagged_tokens (process db tk sw ut) = pos_tagged_tokens (process db tk sw' ut) \<and>
      ner_tree (process db tk sw ut) = ner_tree (process db tk sw' ut) \<and>
      named_entities (process db tk sw ut) = named_entities (process db tk sw' ut)"
  proof (cases "ut = []")
    case True
    then show ?thesis by (simp add: process_empty)
  next
    case False
    have "pos_tagged_tokens (process db tk s ut) = Some ?tagged"
      if "raised (process db tk s ut) = None" for s
      using that False by (simp add: process_tagged)
    with False show ?thesis by (simp add: process_ner)
  qed
  from complete produced tagging chunking independent show ?thesis by blast
qed

text \<open>
  The stop word \<^verbatim>\<open>to\<close> and the full stop are tagged and chunked, with either stop
  word set.
\<close>

theorem tagging_and_chunking_read_unfiltered_witness:
  "lit ''Rome to .'' \<noteq> [] \<and>
   (\<forall>w. \<exists>y. porter_stem sample_toolkit w = Inr y) \<and>
   (\<forall>w. \<exists>y. lemmatize sample_toolkit w = Inr y) \<and>
   raised (process latin1_tables sample_toolkit {lit ''to''} (lit ''Rome to .'')) = None \<and>
   raised (process latin1_tables sample_toolkit {} (lit ''Rome to .'')) = None \<and>
   filtered_tokens (process latin1_tables sample_toolkit {lit ''to''} (lit ''Rome to .'')) =
     Some [lit ''Rome''] \<and>
   filtered_tokens (process latin1_tables sample_toolkit {} (lit ''Rome to .'')) =
     Some [lit ''Rome'', lit ''to''] \<and>
   tokens (process latin1_tables sample_toolkit {lit ''to''} (lit ''Rome to .'')) =
     Some [lit ''Rome'', lit ''to'', lit ''.''] \<and>
   pos_tag sample_toolkit [lit ''Rome'', lit ''to'', lit ''.''] =
     Inr [(lit ''Rome'', lit ''NNP''), (lit ''to'', lit ''NN''), (lit ''.'', lit ''NN'')] \<and>
   pos_tagged_tokens (process latin1_tables sample_toolkit {lit ''to''} (lit ''Rome to .'')) =
     Some [(lit ''Rome'', lit ''NNP''), (lit ''to'', lit ''NN''), (lit ''.'', lit ''NN'')] \<and>
   pos_tagged_tokens (process latin1_tables sample_toolkit {} (lit ''Rome to .'')) =
     Some [(lit ''Rome'', lit ''NNP''), (lit ''to'', lit ''NN''), (lit ''.'', lit ''NN'')] \<and>
   ne_chunk sample_toolkit
       [(lit ''Rome'', lit ''NNP''), (lit ''to'', lit ''NN''), (lit ''.'', lit ''NN'')] =
     Inr (Tree (lit ''S'')
       [Subtree (lit ''PERSON'') [Leaf (lit ''Rome'') (lit ''NNP'')],
        Leaf (lit ''to'') (lit ''NN''), Leaf (lit ''.'') (lit ''NN'')]) \<and>
   ner_tree (process latin1_tables sample_toolkit {lit ''to''} (lit ''Rome to .'')) =
     Some (Tree (lit ''S'')
       [Subtree (lit ''PERSON'') [Leaf (lit ''Rome'') (lit ''NNP'')],
        Leaf (lit ''to'') (lit ''NN''), Leaf (lit ''.'') (lit ''NN'')])"
proof -
  let ?ut = "lit ''Rome to .''"
  let ?toks = "[lit ''Rome'', lit ''to'', lit ''.'']"
  let ?tagged = "[(lit ''Rome'', lit ''NNP''), (lit ''to'', lit ''NN''), (lit ''.'', lit ''NN'')]"
  let ?tree = "Tree (lit ''S'')
       [Subtree (lit ''PERSON'') [Leaf (lit ''Rome'') (lit ''NNP'')],
        Leaf (lit ''to'') (lit ''NN''), Leaf (lit ''.'') (lit ''NN'')]"
  have given: "?ut \<noteq> []" by (simp add: lit_def)
  have total: "(\<forall>w. \<exists>y. porter_stem sample_toolkit w = Inr y) \<and>
      (\<forall>w. \<exists>y. lemmatize sample_toolkit w = Inr y)"
    by (simp add: sample_toolkit_def)
  have tokenizer: "word_tokenize sample_toolkit ?ut = Inr ?toks"
    by code_simp
  have tagger: "pos_tag sample_toolkit ?toks = Inr ?tagged"
    by code_simp
  have chunker: "ne_chunk sample_toolkit ?tagged = Inr ?tree"
    by code_simp
  have filtered:
    "filtered_tokens (process latin1_tables sample_toolkit {lit ''to''} ?ut) =
       Some [lit ''Rome''] \<and>
     filtered_tokens (process latin1_tables sample_toolkit {} ?ut) = Some [lit ''Rome'', lit ''to'']"
    by code_simp
  note claim = tagging_and_chunking_read_unfiltered
    [where db = latin1_tables and tk = sample_toolkit and ut = ?ut]
  from claim [where sw = "{lit ''to''}", THEN conjunct1] given total
  have complete: "raised (process latin1_tables sample_toolkit {lit ''to''} ?ut) = None"
    by blast
  from claim [where sw = "{}", THEN conjunct1] given total
  have complete': "raised (process latin1_tables sample_toolkit {} ?ut) = None"
    by blast
  from claim [where sw = "{lit ''to''}", THEN conjunct2, THEN conjunct1] given complete
  obtain toks tagged where run:
    "tokens (process latin1_tables sample_toolkit {lit ''to''} ?ut) = Some toks"
    "toks = (case word_tokenize sample_toolkit ?ut of
               Inr ts \<Rightarrow> ts | Inl e \<Rightarrow> split latin1_tables ?ut)"
    "pos_tagged_tokens (process latin1_tables sample_toolkit {lit ''to''} ?ut) = Some tagged"
    "tagged = (case pos_tag sample_toolkit toks of
                 Inr tg \<Rightarrow> tg | Inl e \<Rightarrow> map (\<lambda>token. (token, lit ''UNK'')) toks)"
    "ner_tree (process latin1_tables sample_toolkit {lit ''to''} ?ut) =
       (case ne_chunk sample_toolkit tagged of Inr t \<Rightarrow> Some t | Inl e \<Rightarrow> None)"
    by blast
  from run(2) have toks: "toks = ?toks" unfolding tokenizer by simp
  from run(4) have tagged: "tagged = ?tagged" unfolding toks tagger by simp
  from run(1) toks
  have r1: "tokens (process latin1_tables sample_toolkit {lit ''to''} ?ut) = Some ?toks"
    by simp
  from run(3) tagged
  have r2: "pos_tagged_tokens (process latin1_tables sample_toolkit {lit ''to''} ?ut) =
      Some ?tagged"
    by simp
  from run(5) have r3: "ner_tree (process latin1_tables sample_toolkit {lit ''to''} ?ut) =
      Some ?tree"
    unfolding tagged chunker by simp
  from claim [where sw = "{lit ''to''}" and sw' = "{}",
      THEN conjunct2, THEN conjunct2, THEN conjunct2, THEN conjunct2]
    complete complete'
  have "pos_tagged_tokens (process latin1_tables sample_toolkit {lit ''to''} ?ut) =
      pos_tagged_tokens (process latin1_tables sample_toolkit {} ?ut)"
    by blast
  with r2 have r4: "pos_tagged_tokens (process latin1_tables sample_toolkit {} ?ut) =
      Some ?tagged"
    by simp
  from given total complete complete' filtered r1 tagger r2 r4 chunker r3
  show ?thesis by blast
qed

section \<open>The empty input\<close>

text \<open>
  C9. When the input text is the empty string the body does not run: no variable of a
  stage is bound and nothing is written to the page, which ends with what the start of
  the script wrote, the text area last. A non-empty text does run the body.
\<close>

theorem empty_input_runs_nothing:
  "process db tk sw [] = no_run \<and>
   ui (process db tk sw []) = [] \<and>
   ui (app db tk []) = fst (startup tk) \<and>
   tokens (app db tk []) = None \<and> filtered_tokens (app db tk []) = None \<and>
   stemmed_tokens (app db tk []) = None \<and> lemmatized_tokens (app db tk []) = None \<and>
   pos_tagged_tokens (app db tk []) = None \<and> ner_tree (app db tk []) = None \<and>
   named_entities (app db tk []) = None \<and>
   (snd (startup tk) = Inr sw \<longrightarrow>
      raised (app db tk []) = None \<and>
      last (ui (app db tk [])) = St_text_area (lit ''Enter Text Here:'') default_text) \<and>
   (ut \<noteq> [] \<longrightarrow> ui (process db tk sw ut) \<noteq> [] \<and> tokens (process db tk sw ut) \<noteq> None)"
proof -
  have body: "process db tk sw [] = no_run" by (rule process_empty)
  have page: "ui (process db tk sw []) = []" by (simp add: process_empty no_run_def)
  have script: "app db tk [] =
      no_run\<lparr>ui := fst (startup tk),
             raised := (case snd (startup tk) of Inl e \<Rightarrow> Some e | Inr _ \<Rightarrow> None)\<rparr>"
    by (simp add: app_def process_empty no_run_def split: prod.splits sum.splits)
  have prompt: "snd (startup tk) = Inr sw \<longrightarrow>
      raised (app db tk []) = None \<and>
      last (ui (app db tk [])) = St_text_area (lit ''Enter Text Here:'') default_text"
    by (simp add: script startup_last)
  have nonempty: "ut \<noteq> [] \<longrightarrow>
      ui (process db tk sw ut) \<noteq> [] \<and> tokens (process db tk sw ut) \<noteq> None"
    by (simp add: process_tokens)
       (simp add: process_def no_run_def Let_def split: prod.splits sum.splits)
  from body page prompt nonempty show ?thesis
    by (simp add: script no_run_def)
qed

theorem empty_input_runs_nothing_witness:
  "snd (startup sample_toolkit) =
     Inr {lit ''to'', lit ''the'', lit ''on'', lit ''for'', lit ''some''} \<and>
   raised (app latin1_tables sample_toolkit []) = None \<and>
   last (ui (app latin1_tables sample_toolkit [])) =
     St_text_area (lit ''Enter Text Here:'') default_text \<and>
   lit ''Rome'' \<noteq> [] \<and>
   ui (process latin1_tables sample_toolkit {} (lit ''Rome'')) \<noteq> [] \<and>
   tokens (process latin1_tables sample_toolkit {} (lit ''Rome'')) \<noteq> None"
proof -
  have "provision sample_toolkit resources True = ([], Inr True)"
    by code_simp
  then have started: "snd (startup sample_toolkit) =
      Inr {lit ''to'', lit ''the'', lit ''on'', lit ''for'', lit ''some''}"
    by (simp add: startup_def Let_def sample_toolkit_def)
  have given: "lit ''Rome'' \<noteq> []" by (simp add: lit_def)
  note claim = empty_input_runs_nothing [where db = latin1_tables and tk = sample_toolkit]
  from claim
    [where sw = "{lit ''to'', lit ''the'', lit ''on'', lit ''for'', lit ''some''}",
     THEN conjunct2, THEN conjunct2, THEN conjunct2, THEN conjunct2, THEN conjunct2,
     THEN conjunct2, THEN conjunct2, THEN conjunct2, THEN conjunct2, THEN conjunct2,
     THEN conjunct1]
    started
  have prompt: "raised (app latin1_tables sample_toolkit []) = None \<and>
      last (ui (app latin1_tables sample_toolkit [])) =
        St_text_area (lit ''Enter Text Here:'') default_text"
    by blast
  from claim
    [where sw = "{}" and ut = "lit ''Rome''",
     THEN conjunct2, THEN conjunct2, THEN conjunct2, THEN conjunct2, THEN conjunct2,
     THEN conjunct2, THEN conjunct2, THEN conjunct2, THEN conjunct2, THEN conjunct2,
     THEN conjunct2]
    given
  have runs: "ui (process latin1_tables sample_toolkit {} (lit ''Rome'')) \<noteq> [] \<and>
      tokens (process latin1_tables sample_toolkit {} (lit ''Rome'')) \<noteq> None"
    by blast
  from started prompt given runs show ?thesis by blast
qed

section \<open>Resource provisioning: exceptions\<close>

text \<open>
  C10 as stated, that \<^verbatim>\<open>download_nltk_resource\<close> always returns a boolean, fails: only
  \<^verbatim>\<open>LookupError\<close> is handled around the lookup. When the lookup raises anything else,
  that exception leaves the function and the loop.
\<close>

theorem download_nltk_resource_not_total:
  "snd (download_nltk_resource corrupt_cache_toolkit (lit ''punkt'')) =
     Inl (OtherError (lit ''File is not a zip file'')) \<and>
   snd (provision corrupt_cache_toolkit resources True) =
     Inl (OtherError (lit ''File is not a zip file''))"
  by code_simp

text \<open>
  C10, as amended. Whenever the lookup returns or raises \<^verbatim>\<open>LookupError\<close>,
  \<^verbatim>\<open>download_nltk_resource\<close> returns a boolean: the \<^verbatim>\<open>LookupError\<close> and every
  exception of the fetch are handled inside the function, so a failed fetch gives
  \<^verbatim>\<open>False\<close> and never leaves the provisioning loop, which then ends with the
  conjunction of the results. An exception of the lookup other than \<^verbatim>\<open>LookupError\<close>
  is not handled: it leaves the function, and the loop as soon as one resource of the
  list meets it.
\<close>

theorem download_nltk_resource_total_on_lookup_error:
  "((\<forall>m. data_find tk name \<noteq> Inl (OtherError m)) \<longrightarrow>
      (\<exists>b. snd (download_nltk_resource tk name) = Inr b)) \<and>
   ((\<exists>m. data_find tk name = Inl (LookupError m)) \<and> download tk name = Inl e \<longrightarrow>
      snd (download_nltk_resource tk name) = Inr False) \<and>
   ((\<forall>name\<in>set names. \<forall>m. data_find tk name \<noteq> Inl (OtherError m)) \<longrightarrow>
      snd (provision tk names all_success) =
        Inr (all_success \<and>
             (\<forall>name\<in>set names. snd (download_nltk_resource tk name) = Inr True))) \<and>
   (data_find tk name = Inl (OtherError m) \<longrightarrow>
      snd (download_nltk_resource tk name) = Inl (OtherError m)) \<and>
   ((\<exists>name\<in>set names. \<exists>m. data_find tk name = Inl (OtherError m)) \<longrightarrow>
      (\<exists>m. snd (provision tk names all_success) = Inl (OtherError m)))"
proof -
  have returns: "(\<forall>m. data_find tk name \<noteq> Inl (OtherError m)) \<longrightarrow>
      (\<exists>b. snd (download_nltk_resource tk name) = Inr b)"
    by (auto simp: download_nltk_resource_result split: sum.splits exn.splits)
  have caught: "(\<exists>m. data_find tk name = Inl (LookupError m)) \<and> download tk name = Inl e \<longrightarrow>
      snd (download_nltk_resource tk name) = Inr False"
    by (auto simp: download_nltk_resource_result)
  have loop: "(\<forall>name\<in>set names. \<forall>m. data_find tk name \<noteq> Inl (OtherError m)) \<longrightarrow>
      snd (provision tk names all_success) =
        Inr (all_success \<and>
             (\<forall>name\<in>set names. snd (download_nltk_resource tk name) = Inr True))"
    using provision_result by blast
  have propagates: "data_find tk name = Inl (OtherError m) \<longrightarrow>
      snd (download_nltk_resource tk name) = Inl (OtherError m)"
    by (simp add: download_nltk_resource_result)
  have loop_left: "(\<exists>name\<in>set names. \<exists>m. data_find tk name = Inl (OtherError m)) \<longrightarrow>
      (\<exists>m. snd (provision tk names all_success) = Inl (OtherError m))"
    using provision_raises by blast
  from returns caught loop propagates loop_left show ?thesis by blast
qed

theorem download_nltk_resource_total_on_lookup_error_witness:
  "data_find offline_toolkit (lit ''punkt'') = Inl (LookupError (lit ''punkt'')) \<and>
   download offline_toolkit (lit ''punkt'') = Inl (OtherError (lit ''no route to host'')) \<and>
   snd (download_nltk_resource offline_toolkit (lit ''punkt'')) = Inr False \<and>
   snd (provision offline_toolkit resources True) = Inr False \<and>
   data_find corrupt_cache_toolkit (lit ''wordnet'') =
     Inl (OtherError (lit ''File is not a zip file'')) \<and>
   snd (download_nltk_resource corrupt_cache_toolkit (lit ''wordnet'')) =
     Inl (OtherError (lit ''File is not a zip file'')) \<and>
   (\<exists>m. snd (provision corrupt_cache_toolkit resources False) = Inl (OtherError m))"
proof -
  have lookup: "\<forall>name. data_find offline_toolkit name = Inl (LookupError name)"
    by (simp add: offline_toolkit_def)
  have fetch: "download offline_toolkit (lit ''punkt'') =
      Inl (OtherError (lit ''no route to host''))"
    by (simp add: offline_toolkit_def)
  have corrupt: "\<forall>name. data_find corrupt_cache_toolkit name =
      Inl (OtherError (lit ''File is not a zip file''))"
    by (simp add: corrupt_cache_toolkit_def sample_toolkit_def)
  have listed: "lit ''punkt'' \<in> set resources"
    by (simp add: resources_def)
  from lookup have handled:
    "\<forall>name\<in>set resources. \<forall>m. data_find offline_toolkit name \<noteq> Inl (OtherError m)"
    by simp
  note claim = download_nltk_resource_total_on_lookup_error
    [where tk = offline_toolkit and name = "lit ''punkt''"
       and e = "OtherError (lit ''no route to host'')" and names = resources
       and all_success = True]
  from claim [THEN conjunct2, THEN conjunct1] lookup fetch
  have one: "snd (download_nltk_resource offline_toolkit (lit ''punkt'')) = Inr False"
    by blast
  from claim [THEN conjunct2, THEN conjunct2, THEN conjunct1] handled
  have loop: "snd (provision offline_toolkit resources True) =
      Inr (True \<and> (\<forall>name\<in>set resources.
        snd (download_nltk_resource offline_toolkit name) = Inr True))"
    by blast
  from one have "snd (download_nltk_resource offline_toolkit (lit ''punkt'')) \<noteq> Inr True"
    by simp
  with listed have "\<not> (\<forall>name\<in>set resources.
      snd (download_nltk_resource offline_toolkit name) = Inr True)"
    by blast
  with loop have all: "snd (provision offline_toolkit resources True) = Inr False"
    by simp
  note claim' = download_nltk_resource_total_on_lookup_error
    [where tk = corrupt_cache_toolkit and name = "lit ''wordnet''"
       and m = "lit ''File is not a zip file''" and names = resources
       and all_success = False]
  from claim' [THEN conjunct2, THEN conjunct2, THEN conjunct2, THEN conjunct1] corrupt
  have left: "snd (download_nltk_resource corrupt_cache_toolkit (lit ''wordnet'')) =
      Inl (OtherError (lit ''File is not a zip file''))"
    by blast
  from corrupt listed
  have "\<exists>name\<in>set resources. \<exists>m. data_find corrupt_cache_toolkit name = Inl (OtherError m)"
    by blast
  with claim' [THEN conjunct2, THEN conjunct2, THEN conjunct2, THEN conjunct2]
  have loop_left: "\<exists>m. snd (provision corrupt_cache_toolkit resources False) =
      Inl (OtherError m)"
    by blast
  from lookup fetch one all corrupt left loop_left show ?thesis by blast
qed

end
